theory Spec2Isabelle
  imports Main "HOL-Library.Sublist"
begin

section \<open>Text\<close>

text \<open>
  The program works on JavaScript strings that come out of \<^verbatim>\<open>toString("utf8")\<close>, so they
  are well-formed Unicode text. Such a text is modelled by the \<^typ>\<open>string\<close> of its UTF-8
  bytes. Every pattern the program matches against is either ASCII or a single code point,
  and UTF-8 is self-synchronising, so matching on the bytes finds the same places as
  matching on the code units does.
\<close>

abbreviation LF :: char where "LF \<equiv> CHR 0x0A"
abbreviation CR :: char where "CR \<equiv> CHR 0x0D"
abbreviation DQUOTE :: char where "DQUOTE \<equiv> CHR 0x22"
abbreviation BACKSLASH :: char where "BACKSLASH \<equiv> CHR 0x5C"

text \<open>
  The code points that \<^verbatim>\<open>String.prototype.trim\<close> removes (WhiteSpace and LineTerminator of
  ECMAScript): TAB, LF, VT, FF, CR, SP, U+00A0, U+1680, U+2000 to U+200A, U+2028, U+2029,
  U+202F, U+205F, U+3000 and U+FEFF, each as its UTF-8 bytes.
\<close>

definition whiteSpace :: "string list" where
  "whiteSpace =
     [[CHR 0x09], [LF], [CHR 0x0B], [CHR 0x0C], [CR], [CHR 0x20],
      [CHR 0xC2, CHR 0xA0],
      [CHR 0xE1, CHR 0x9A, CHR 0x80],
      [CHR 0xE2, CHR 0x80, CHR 0x80], [CHR 0xE2, CHR 0x80, CHR 0x81],
      [CHR 0xE2, CHR 0x80, CHR 0x82], [CHR 0xE2, CHR 0x80, CHR 0x83],
      [CHR 0xE2, CHR 0x80, CHR 0x84], [CHR 0xE2, CHR 0x80, CHR 0x85],
      [CHR 0xE2, CHR 0x80, CHR 0x86], [CHR 0xE2, CHR 0x80, CHR 0x87],
      [CHR 0xE2, CHR 0x80, CHR 0x88], [CHR 0xE2, CHR 0x80, CHR 0x89],
      [CHR 0xE2, CHR 0x80, CHR 0x8A],
      [CHR 0xE2, CHR 0x80, CHR 0xA8], [CHR 0xE2, CHR 0x80, CHR 0xA9],
      [CHR 0xE2, CHR 0x80, CHR 0xAF],
      [CHR 0xE2, CHR 0x81, CHR 0x9F],
      [CHR 0xE3, CHR 0x80, CHR 0x80],
      [CHR 0xEF, CHR 0xBB, CHR 0xBF]]"

text \<open>Removes, from the front of \<open>s\<close>, every leading occurrence of one of the tokens.\<close>

function stripLeading :: "string list \<Rightarrow> string \<Rightarrow> string" where
  "stripLeading toks s =
     (case find (\<lambda>t. t \<noteq> [] \<and> prefix t s) toks of
        None \<Rightarrow> s
      | Some t \<Rightarrow> stripLeading toks (drop (length t) s))"
  by pat_completeness auto
termination
proof (relation "measure (\<lambda>(toks, s). length s)")
  show "wf (measure (\<lambda>(toks, s). length s))" by simp
next
  fix toks :: "string list" and s t :: string
  assume "find (\<lambda>t. t \<noteq> [] \<and> prefix t s) toks = Some t"
  then have "t \<noteq> []" and "prefix t s"
    by (auto simp: find_Some_iff)
  then have "0 < length t" and "length t \<le> length s"
    by (auto simp: prefix_def)
  then have "length (drop (length t) s) < length s"
    by (simp del: length_greater_0_conv)
  then show "((toks, drop (length t) s), (toks, s)) \<in> measure (\<lambda>(toks, s). length s)"
    by simp
qed

declare stripLeading.simps [simp del]

definition trimStart :: "string \<Rightarrow> string" where
  "trimStart s = stripLeading whiteSpace s"

definition trimEnd :: "string \<Rightarrow> string" where
  "trimEnd s = rev (stripLeading (map rev whiteSpace) (rev s))"

text \<open>\<^verbatim>\<open>String.prototype.trim\<close>.\<close>

definition trim :: "string \<Rightarrow> string" where
  "trim s = trimEnd (trimStart s)"

text \<open>
  Whether the text holds a line terminator, the characters that \<^verbatim>\<open>.\<close> of a regular
  expression (without the \<^verbatim>\<open>s\<close> flag) does not match: LF, CR, U+2028, U+2029.
\<close>

fun hasLineTerminator :: "string \<Rightarrow> bool" where
  "hasLineTerminator [] = False"
| "hasLineTerminator (c # cs) =
     (c = LF \<or> c = CR
      \<or> prefix [CHR 0xE2, CHR 0x80, CHR 0xA8] (c # cs)
      \<or> prefix [CHR 0xE2, CHR 0x80, CHR 0xA9] (c # cs)
      \<or> hasLineTerminator cs)"

text \<open>
  \<^verbatim>\<open>value.replace(/^"(.*)"$/, "$1")\<close>: the pattern matches the whole text when it starts
  with a double quote, ends with another one, and \<^verbatim>\<open>.*\<close> can cover what lies between;
  the match is then replaced by what lies between. Otherwise nothing is replaced.
\<close>

definition stripQuotes :: "string \<Rightarrow> string" where
  "stripQuotes v =
     (if 2 \<le> length v \<and> hd v = DQUOTE \<and> last v = DQUOTE
         \<and> \<not> hasLineTerminator (butlast (tl v))
      then butlast (tl v) else v)"

text \<open>\<^verbatim>\<open>s.split(",")\<close>; the empty text gives one empty piece.\<close>

fun splitComma :: "string \<Rightarrow> string list" where
  "splitComma [] = [[]]"
| "splitComma (c # cs) =
     (if c = CHR '','' then [] # splitComma cs
      else (case splitComma cs of [] \<Rightarrow> [[c]] | t # ts \<Rightarrow> (c # t) # ts))"

section \<open>Splitting a CA bundle\<close>

definition endCertificate :: string where
  "endCertificate = ''-----END CERTIFICATE-----''"

definition newLinePlaceholder :: string where
  "newLinePlaceholder = ''NEW_LINE_PLACEHOLDER_xIsPsK23svt''"

text \<open>
  \<^verbatim>\<open>cafileContent.split(/(-----END CERTIFICATE-----)/)\<close>. The pattern is tried at each
  position from left to right; a match closes the current piece, adds the captured marker
  as a piece of its own and resumes behind the match. The text left at the end is the last
  piece, also when it is empty. \<open>acc\<close> is the piece being collected.
\<close>

function splitAcc :: "string \<Rightarrow> string \<Rightarrow> string list" where
  "splitAcc acc [] = [acc]"
| "splitAcc acc (c # cs) =
     (if prefix endCertificate (c # cs)
      then acc # endCertificate # splitAcc [] (drop (length endCertificate) (c # cs))
      else splitAcc (acc @ [c]) cs)"
  by pat_completeness auto
termination
  by (relation "measure (\<lambda>(acc, s). length s)") (auto simp: endCertificate_def)

definition splitOnEndCertificate :: "string \<Rightarrow> string list" where
  "splitOnEndCertificate s = splitAcc [] s"

text \<open>
  \<^verbatim>\<open>arr.map((_, i) => i % size == 0 && arr.slice(i, i + size)).filter(Boolean)\<close>.
  A slice is an array, which is truthy even when short, so exactly the indices that are
  multiples of the size \<open>sz\<close> survive the filter. For \<open>sz = 0\<close> the remainder is NaN and
  nothing survives.
\<close>

definition chunks :: "'a list \<Rightarrow> nat \<Rightarrow> 'a list list" where
  "chunks arr sz =
     map (\<lambda>i. take sz (drop i arr))
       (filter (\<lambda>i. sz \<noteq> 0 \<and> i mod sz = 0) [0..<length arr])"

text \<open>\<^verbatim>\<open>.replace(/\r?\n/g, newLinePlaceholder)\<close>.\<close>

fun replaceLineBreaks :: "string \<Rightarrow> string" where
  "replaceLineBreaks [] = []"
| "replaceLineBreaks [c] = (if c = LF then newLinePlaceholder else [c])"
| "replaceLineBreaks (c # d # cs) =
     (if c = CR \<and> d = LF then newLinePlaceholder @ replaceLineBreaks cs
      else if c = LF then newLinePlaceholder @ replaceLineBreaks (d # cs)
      else c # replaceLineBreaks (d # cs))"

text \<open>\<^verbatim>\<open>.replace(new RegExp(`^${pat}`), "")\<close> for a pattern of letters, digits and underscores.\<close>

definition removeLeading :: "string \<Rightarrow> string \<Rightarrow> string" where
  "removeLeading pat s = (if prefix pat s then drop (length pat) s else s)"

text \<open>
  \<^verbatim>\<open>.replace(new RegExp(pat, "g"), rep)\<close> for a pattern of letters, digits and underscores
  and a replacement without \<^verbatim>\<open>$\<close>: every occurrence, found from left to right and not
  overlapping an earlier one, is replaced.
\<close>

function replaceAll :: "string \<Rightarrow> string \<Rightarrow> string \<Rightarrow> string" where
  "replaceAll pat rep [] = []"
| "replaceAll pat rep (c # cs) =
     (if pat \<noteq> [] \<and> prefix pat (c # cs)
      then rep @ replaceAll pat rep (drop (length pat) (c # cs))
      else c # replaceAll pat rep cs)"
  by pat_completeness auto
termination
  by (relation "measure (\<lambda>(pat, rep, s). length s)") (auto simp: neq_Nil_conv)

text \<open>The function mapped over the chunks at lines 112 to 117.\<close>

definition escapeChunk :: "string list \<Rightarrow> string" where
  "escapeChunk caChunk =
     replaceAll newLinePlaceholder [BACKSLASH, CHR ''n'']
       (removeLeading newLinePlaceholder (replaceLineBreaks (concat caChunk)))"

text \<open>The entries pushed onto \<^verbatim>\<open>ca\<close> for the content of a bundle file (lines 110 to 119).\<close>

definition caFileEntries :: "string \<Rightarrow> string list" where
  "caFileEntries cafileContent =
     map escapeChunk (chunks (splitOnEndCertificate cafileContent) 2)"

section \<open>The environment and the process state\<close>

text \<open>A thrown JavaScript \<^verbatim>\<open>Error\<close>, with its message.\<close>

datatype error = Error string

text \<open>
  An absolute, normalised path, as \<^verbatim>\<open>path.resolve\<close> returns it: the names below the
  root, the root itself being \<open>[]\<close>. \<^verbatim>\<open>path.join(p, name)\<close> is \<open>p @ [name]\<close> and
  \<^verbatim>\<open>path.dirname(p)\<close> is \<open>butlast p\<close>, which leaves the root as it is.
\<close>

type_synonym path = "string list"

text \<open>
  What the program asks of its surroundings.
  \<^item> \<^verbatim>\<open>child_process.execSync(command, { cwd })\<close> followed by \<^verbatim>\<open>toString("utf8")\<close>:
    it throws when the command cannot be run or exits with an error.
  \<^item> \<^verbatim>\<open>fs.readFileSync(file).toString("utf8")\<close>: it throws when the file cannot be read.
  \<^item> \<^verbatim>\<open>fs.existsSync\<close>: it never throws.
  \<^item> \<^verbatim>\<open>path.resolve\<close>: for a relative path it asks for the working directory of the
    process and throws when the process has lost it.
  \<^item> The number of arguments that the engine accepts in one call. A call with a spread
    array of more elements throws a \<^verbatim>\<open>RangeError\<close> before the callee runs.
\<close>

record world =
  exec_sync :: "string \<Rightarrow> string \<Rightarrow> error + string"
  read_file_sync :: "string \<Rightarrow> error + string"
  exists_sync :: "path \<Rightarrow> bool"
  path_resolve :: "string \<Rightarrow> error + path"
  argument_limit :: nat

text \<open>
  The state of the process: the module-level \<^verbatim>\<open>configCache\<close>, a
  \<^verbatim>\<open>Map<string, string | undefined>\<close>, and the commands handed to \<^verbatim>\<open>execSync\<close> so
  far, each with its working directory, oldest first. In the cache \<open>None\<close> is a key that
  the map does not have, \<open>Some None\<close> a key stored with \<^verbatim>\<open>undefined\<close>.
\<close>

record state =
  configCache :: "string \<rightharpoonup> string option"
  execLog :: "(string \<times> string) list"

definition initialState :: state where
  "initialState = \<lparr>configCache = Map.empty, execLog = []\<rparr>"

text \<open>
  A computation runs on the state and either throws or returns a value; the state it
  leaves is kept in both cases.
\<close>

type_synonym 'a comp = "state \<Rightarrow> (error + 'a) \<times> state"

definition pure :: "'a \<Rightarrow> 'a comp" where
  "pure a st = (Inr a, st)"

definition andThen :: "'a comp \<Rightarrow> ('a \<Rightarrow> 'b comp) \<Rightarrow> 'b comp" where
  "andThen m f st = (case m st of (Inl e, st') \<Rightarrow> (Inl e, st') | (Inr a, st') \<Rightarrow> f a st')"

text \<open>\<^verbatim>\<open>try { body } catch { handler }\<close>.\<close>

definition tryCatch :: "'a comp \<Rightarrow> (error \<Rightarrow> 'a comp) \<Rightarrow> 'a comp" where
  "tryCatch body handler st =
     (case body st of (Inl e, st') \<Rightarrow> handler e st' | (Inr a, st') \<Rightarrow> (Inr a, st'))"

definition execSync :: "world \<Rightarrow> string \<Rightarrow> string \<Rightarrow> string comp" where
  "execSync w command cwd st =
     (exec_sync w command cwd, st\<lparr>execLog := execLog st @ [(command, cwd)]\<rparr>)"

definition readFileSync :: "world \<Rightarrow> string \<Rightarrow> string comp" where
  "readFileSync w file st = (read_file_sync w file, st)"

text \<open>\<^verbatim>\<open>configCache.set(key, value)\<close>.\<close>

definition cacheSet :: "string \<Rightarrow> string option \<Rightarrow> unit comp" where
  "cacheSet key v st = (Inr (), st\<lparr>configCache := (configCache st)(key \<mapsto> v)\<rparr>)"

text \<open>A call that touches no state: it throws or returns.\<close>

definition fromResult :: "error + 'a \<Rightarrow> 'a comp" where
  "fromResult r st = (r, st)"

text \<open>
  \<^verbatim>\<open>arr.push(...items)\<close>, returning the array as it is afterwards. With more items than
  the engine accepts as arguments the call throws and the array is left as it was.
\<close>

definition pushSpread :: "world \<Rightarrow> 'a list \<Rightarrow> 'a list \<Rightarrow> 'a list comp" where
  "pushSpread w arr items st =
     (if length items \<le> argument_limit w then (Inr (arr @ items), st)
      else (Inl (Error ''RangeError: Maximum call stack size exceeded''), st))"

section \<open>Detecting the package manager\<close>

text \<open>The loop of \<^verbatim>\<open>findUpSync\<close>, lines 18 to 33.\<close>

function findUpLoop :: "world \<Rightarrow> string list \<Rightarrow> path \<Rightarrow> path option" where
  "findUpLoop w filenames current =
     (if list_ex (\<lambda>filename. exists_sync w (current @ [filename])) filenames then Some current
      else if butlast current = current then None
      else findUpLoop w filenames (butlast current))"
  by pat_completeness auto
termination
proof (relation "measure (\<lambda>(w, filenames, current). length current)")
  show "wf (measure (\<lambda>(w, filenames, current). length current))" by simp
next
  fix w :: world and filenames :: "string list" and current :: path
  assume "butlast current \<noteq> current"
  then have "current \<noteq> []" by auto
  then show "((w, filenames, butlast current), (w, filenames, current))
      \<in> measure (\<lambda>(w, filenames, current). length current)"
    by simp
qed

declare findUpLoop.simps [simp del]

text \<open>Line 17 is outside every \<^verbatim>\<open>try\<close>: what \<^verbatim>\<open>path.resolve\<close> throws, the function throws.\<close>

definition findUpSync :: "world \<Rightarrow> string list \<Rightarrow> string \<Rightarrow> error + path option" where
  "findUpSync w filenames cwd =
     (case path_resolve w cwd of
        Inl e \<Rightarrow> Inl e
      | Inr current \<Rightarrow> Inr (findUpLoop w filenames current))"

definition detectYarn :: "world \<Rightarrow> string \<Rightarrow> error + bool" where
  "detectYarn w cwd =
     (case findUpSync w [''.yarnrc.yml'', ''.yarn'', ''.pnp.cjs''] cwd of
        Inl e \<Rightarrow> Inl e
      | Inr yarnRoot \<Rightarrow> Inr (yarnRoot \<noteq> None))"

section \<open>Reading the configuration\<close>

text \<open>The command of line 60.\<close>

definition configGetCommand :: "bool \<Rightarrow> string \<Rightarrow> string" where
  "configGetCommand isYarn key =
     (if isYarn then ''yarn config get '' @ key else ''npm config get '' @ key)"

text \<open>
  \<^verbatim>\<open>readConfig\<close> is a closure over \<^verbatim>\<open>isYarn\<close> and \<^verbatim>\<open>npmConfigGetCwd\<close>; here both
  are parameters.
\<close>

definition readConfig :: "world \<Rightarrow> bool \<Rightarrow> string \<Rightarrow> string \<Rightarrow> string option comp" where
  "readConfig w isYarn npmConfigGetCwd key st =
     (case configCache st key of
        Some cached \<Rightarrow> (Inr cached, st)
      | None \<Rightarrow>
          tryCatch
            (andThen (execSync w (configGetCommand isYarn key) npmConfigGetCwd) (\<lambda>out.
               let trimmed = trim out;
                   unquoted = (if isYarn then stripQuotes trimmed else trimmed);
                   v = (if unquoted = ''undefined'' \<or> unquoted = ''null''
                        then None else Some unquoted)
               in andThen (cacheSet key v) (\<lambda>_. pure v)))
            (\<lambda>err. andThen (cacheSet key None) (\<lambda>_. pure None))
            st)"

section \<open>Assembling the options\<close>

text \<open>
  The result. The type of the source allows \<^verbatim>\<open>noProxy\<close> and \<^verbatim>\<open>cert\<close> to be a string or
  an array; the function only ever returns an array for the first and a string or
  \<^verbatim>\<open>undefined\<close> for the second.
\<close>

record FetchOptionsLike =
  proxy :: "string option"
  noProxy :: "string list"
  strictSSL :: bool
  cert :: "string option"
  ca :: "string list option"

record params =
  npmConfigGetCwd :: string

text \<open>A value of type \<^verbatim>\<open>string | undefined\<close> is truthy unless it is \<^verbatim>\<open>undefined\<close> or empty.\<close>

definition truthy :: "string option \<Rightarrow> bool" where
  "truthy v = (case v of None \<Rightarrow> False | Some s \<Rightarrow> s \<noteq> [])"

text \<open>\<^verbatim>\<open>a || b\<close>: \<open>b\<close> is only run when \<open>a\<close> has returned a falsy value.\<close>

definition orElse :: "string option comp \<Rightarrow> string option comp \<Rightarrow> string option comp" where
  "orElse a b = andThen a (\<lambda>v. if truthy v then pure v else b)"

text \<open>
  Lines 99 to 123: what \<^verbatim>\<open>ca\<close> holds after them, given the value of \<^verbatim>\<open>cafile\<close> and
  what \<^verbatim>\<open>ca\<close> held before.
\<close>

definition pushCaFile :: "world \<Rightarrow> string option \<Rightarrow> string list \<Rightarrow> string list comp" where
  "pushCaFile w cafile caArray =
     (case cafile of
        None \<Rightarrow> pure caArray
      | Some file \<Rightarrow>
          tryCatch
            (andThen (readFileSync w file) (\<lambda>cafileContent.
               pushSpread w caArray (caFileEntries cafileContent)))
            (\<lambda>err. pure caArray))"

definition getProxyFetchOptions :: "world \<Rightarrow> params \<Rightarrow> FetchOptionsLike comp" where
  "getProxyFetchOptions w ps =
     (let cwd = npmConfigGetCwd ps in
        andThen (fromResult (detectYarn w cwd)) (\<lambda>isYarn.
        let readCfg = readConfig w isYarn cwd in
        andThen (orElse (readCfg ''https-proxy'') (readCfg ''proxy'')) (\<lambda>proxyV.
        andThen (orElse (readCfg ''noproxy'') (readCfg ''no-proxy'')) (\<lambda>noProxyRaw.
        andThen (readCfg ''strict-ssl'') (\<lambda>strictSSLRaw.
        andThen (readCfg ''cert'') (\<lambda>certV.
        andThen (readCfg ''ca'') (\<lambda>caValue.
        andThen (readCfg ''cafile'') (\<lambda>cafile.
        andThen (pushCaFile w cafile (if truthy caValue then [the caValue] else [])) (\<lambda>caArray.
        pure \<lparr>proxy = proxyV,
              noProxy = (case noProxyRaw of None \<Rightarrow> [] | Some s \<Rightarrow> splitComma s),
              strictSSL = (strictSSLRaw = Some ''true''),
              cert = certV,
              ca = (if caArray = [] then None else Some caArray)\<rparr>)))))))))"

section \<open>Notions used to state the properties\<close>

text \<open>The value that a call of \<^verbatim>\<open>readConfig\<close> returns, and the state it leaves.\<close>

definition readValue :: "world \<Rightarrow> bool \<Rightarrow> string \<Rightarrow> string \<Rightarrow> state \<Rightarrow> string option" where
  "readValue w isYarn cwd key st =
     (case fst (readConfig w isYarn cwd key st) of Inl e \<Rightarrow> None | Inr v \<Rightarrow> v)"

definition afterRead :: "world \<Rightarrow> bool \<Rightarrow> string \<Rightarrow> string \<Rightarrow> state \<Rightarrow> state" where
  "afterRead w isYarn cwd key st = snd (readConfig w isYarn cwd key st)"

text \<open>
  The life of a process: \<open>evolves st st'\<close> when \<open>st'\<close> comes from \<open>st\<close> by any number of
  calls of \<^verbatim>\<open>readConfig\<close>, each with an environment, a manager kind, a working directory
  and a key of its own. Nothing else writes the cache.
\<close>

inductive evolves :: "state \<Rightarrow> state \<Rightarrow> bool" where
  evolves_refl: "evolves st st"
| evolves_read: "evolves st st' \<Longrightarrow> evolves st (afterRead w isYarn cwd key st')"

text \<open>The invocations of the config-query command for a key, of either manager.\<close>

definition queriesFor :: "string \<Rightarrow> (string \<times> string) list \<Rightarrow> (string \<times> string) list" where
  "queriesFor key log =
     filter (\<lambda>(command, cwd). command = configGetCommand True key
                              \<or> command = configGetCommand False key) log"

definition noSentinel :: "state \<Rightarrow> bool" where
  "noSentinel st \<longleftrightarrow>
     (\<forall>key. configCache st key \<noteq> Some (Some ''undefined'')
          \<and> configCache st key \<noteq> Some (Some ''null''))"

text \<open>
  The entries that lines 99 to 123 add to \<^verbatim>\<open>ca\<close>: those of the file, if it is read and
  they are not more than the engine accepts as arguments; none otherwise.
\<close>

definition bundleEntries :: "world \<Rightarrow> string option \<Rightarrow> string list" where
  "bundleEntries w cafile =
     (case cafile of
        None \<Rightarrow> []
      | Some file \<Rightarrow>
          (case read_file_sync w file of
             Inl e \<Rightarrow> []
           | Inr content \<Rightarrow>
               (if length (caFileEntries content) \<le> argument_limit w
                then caFileEntries content else [])))"

text \<open>The end marker stands at position \<open>i\<close> of the text.\<close>

definition markerAt :: "nat \<Rightarrow> string \<Rightarrow> bool" where
  "markerAt i s = prefix endCertificate (drop i s)"

text \<open>The text holds no end marker.\<close>

definition markerFree :: "string \<Rightarrow> bool" where
  "markerFree s = (\<not> list_ex (\<lambda>i. markerAt i s) [0..<length s])"

text \<open>
  The marker put behind the text \<open>b\<close> is the first one of \<open>b @ endCertificate\<close>: no
  marker starts inside \<open>b\<close>, not even one that would run into the marker behind it.
\<close>

definition closedByFirstMarker :: "string \<Rightarrow> bool" where
  "closedByFirstMarker b =
     (\<not> list_ex (\<lambda>i. markerAt i (b @ endCertificate)) [0..<length b])"

text \<open>
  The text ends with the first 20 to 24 characters of the end marker, that is with
  \<^verbatim>\<open>-----END CERTIFICATE\<close> and at most four dashes. A marker put behind such a text
  overlaps the marker that the text began.
\<close>

definition endsInsideMarker :: "string \<Rightarrow> bool" where
  "endsInsideMarker s = list_ex (\<lambda>n. suffix (take n endCertificate) s) [20..<25]"

text \<open>A carriage return that no line feed follows.\<close>

fun loneCR :: "string \<Rightarrow> bool" where
  "loneCR [] = False"
| "loneCR [c] = (c = CR)"
| "loneCR (c # d # cs) = ((c = CR \<and> d \<noteq> LF) \<or> loneCR (d # cs))"

section \<open>Sample environments\<close>

definition exampleBundle :: string where
  "exampleBundle =
     ''CERT1-----END CERTIFICATE-----'' @ [LF] @ ''CERT2-----END CERTIFICATE-----''"

text \<open>No package manager is installed: every command fails.\<close>

definition noManager :: world where
  "noManager =
     \<lparr>exec_sync = (\<lambda>command cwd. Inl (Error ''Command failed'')),
      read_file_sync = (\<lambda>file. Inl (Error ''ENOENT'')),
      exists_sync = (\<lambda>p. False),
      path_resolve = (\<lambda>cwd. Inr [''srv'', ''app'']),
      argument_limit = 100000\<rparr>"

text \<open>A project of the default manager, with a proxy configured.\<close>

definition npmProjectExec :: "string \<Rightarrow> string \<Rightarrow> error + string" where
  "npmProjectExec command cwd =
     (if command = ''npm config get https-proxy'' then Inr (''http://proxy:8080'' @ [LF])
      else if command = ''npm config get proxy'' then Inr (''http://fallback:3128'' @ [LF])
      else if command = ''npm config get noproxy'' then Inr (''localhost,127.0.0.1'' @ [LF])
      else if command = ''npm config get strict-ssl'' then Inr (''True'' @ [LF])
      else if command = ''npm config get cafile'' then Inr (''null'' @ [LF])
      else if prefix ''npm config get '' command then Inr (''undefined'' @ [LF])
      else Inl (Error ''Command failed''))"

definition npmProject :: world where
  "npmProject =
     \<lparr>exec_sync = npmProjectExec,
      read_file_sync = (\<lambda>file. Inl (Error ''ENOENT'')),
      exists_sync = (\<lambda>p. False),
      path_resolve = (\<lambda>cwd. Inr [''srv'', ''app'']),
      argument_limit = 100000\<rparr>"

text \<open>
  The first key of each pair is set to the empty text, the second one to a value;
  \<^verbatim>\<open>strict-ssl\<close> is set to \<^verbatim>\<open>1\<close>.
\<close>

definition emptyFirstKeysExec :: "string \<Rightarrow> string \<Rightarrow> error + string" where
  "emptyFirstKeysExec command cwd =
     (if command = ''npm config get https-proxy'' then Inr [LF]
      else if command = ''npm config get proxy'' then Inr (''http://fallback:3128'' @ [LF])
      else if command = ''npm config get noproxy'' then Inr [LF]
      else if command = ''npm config get no-proxy'' then Inr (''internal.example,.local'' @ [LF])
      else if command = ''npm config get strict-ssl'' then Inr (''1'' @ [LF])
      else if prefix ''npm config get '' command then Inr (''undefined'' @ [LF])
      else Inl (Error ''Command failed''))"

definition emptyFirstKeys :: world where
  "emptyFirstKeys =
     \<lparr>exec_sync = emptyFirstKeysExec,
      read_file_sync = (\<lambda>file. Inl (Error ''ENOENT'')),
      exists_sync = (\<lambda>p. False),
      path_resolve = (\<lambda>cwd. Inr [''srv'', ''app'']),
      argument_limit = 100000\<rparr>"

text \<open>Both proxy keys, the first no-proxy key and \<^verbatim>\<open>ca\<close> are set to the empty text.\<close>

definition emptyValuesExec :: "string \<Rightarrow> string \<Rightarrow> error + string" where
  "emptyValuesExec command cwd =
     (if command = ''npm config get https-proxy'' then Inr [LF]
      else if command = ''npm config get proxy'' then Inr [LF]
      else if command = ''npm config get noproxy'' then Inr [LF]
      else if command = ''npm config get no-proxy'' then Inr (''internal.example,.local'' @ [LF])
      else if command = ''npm config get ca'' then Inr [LF]
      else if prefix ''npm config get '' command then Inr (''undefined'' @ [LF])
      else Inl (Error ''Command failed''))"

definition emptyValues :: world where
  "emptyValues =
     \<lparr>exec_sync = emptyValuesExec,
      read_file_sync = (\<lambda>file. Inl (Error ''ENOENT'')),
      exists_sync = (\<lambda>p. False),
      path_resolve = (\<lambda>cwd. Inr [''srv'', ''app'']),
      argument_limit = 100000\<rparr>"

text \<open>
  A project of the alternate manager, marked by \<^verbatim>\<open>.yarnrc.yml\<close> in the parent directory.
  The manager prints its values in double quotes; the value of \<^verbatim>\<open>cert\<close> spans two lines.
\<close>

definition yarnProjectExec :: "string \<Rightarrow> string \<Rightarrow> error + string" where
  "yarnProjectExec command cwd =
     (if command = ''yarn config get https-proxy''
        then Inr ([DQUOTE] @ ''http://proxy:8080'' @ [DQUOTE, LF])
      else if command = ''yarn config get strict-ssl'' then Inr (''true'' @ [LF])
      else if command = ''yarn config get cert''
        then Inr ([DQUOTE] @ ''BEGIN'' @ [LF] @ ''END'' @ [DQUOTE, LF])
      else if command = ''yarn config get cafile''
        then Inr ([DQUOTE] @ ''/etc/ssl/bundle.pem'' @ [DQUOTE, LF])
      else if prefix ''yarn config get '' command
        then Inr ([DQUOTE] @ ''undefined'' @ [DQUOTE, LF])
      else Inl (Error ''Command failed''))"

definition yarnProject :: world where
  "yarnProject =
     \<lparr>exec_sync = yarnProjectExec,
      read_file_sync = (\<lambda>file.
        if file = ''/etc/ssl/bundle.pem'' then Inr exampleBundle else Inl (Error ''ENOENT'')),
      exists_sync = (\<lambda>p. p = [''srv'', ''.yarnrc.yml'']),
      path_resolve = (\<lambda>cwd. Inr [''srv'', ''app'']),
      argument_limit = 100000\<rparr>"

definition srvApp :: params where
  "srvApp = \<lparr>npmConfigGetCwd = ''/srv/app''\<rparr>"

text \<open>
  The process has lost its working directory: \<^verbatim>\<open>path.resolve\<close> returns for an absolute
  path only. The resolver is called with a relative one.
\<close>

definition lostCwd :: world where
  "lostCwd =
     \<lparr>exec_sync = (\<lambda>command cwd. Inl (Error ''Command failed'')),
      read_file_sync = (\<lambda>file. Inl (Error ''ENOENT'')),
      exists_sync = (\<lambda>p. False),
      path_resolve = (\<lambda>cwd.
        if take 1 cwd = ''/'' then Inr [''srv'', ''app'']
      else Inl (Error ''ENOENT: no such file or directory, uv_cwd'')),
      argument_limit = 100000\<rparr>"

definition relativeApp :: params where
  "relativeApp = \<lparr>npmConfigGetCwd = ''app''\<rparr>"

text \<open>A bundle of 150000 end markers, and a project whose \<^verbatim>\<open>cafile\<close> names it.\<close>

definition hugeBundle :: string where
  "hugeBundle = concat (replicate 150000 endCertificate)"

definition hugeBundleProjectExec :: "string \<Rightarrow> string \<Rightarrow> error + string" where
  "hugeBundleProjectExec command cwd =
     (if command = ''npm config get cafile'' then Inr (''/etc/ssl/huge.pem'' @ [LF])
      else if prefix ''npm config get '' command then Inr (''undefined'' @ [LF])
      else Inl (Error ''Command failed''))"

definition hugeBundleProject :: world where
  "hugeBundleProject =
     \<lparr>exec_sync = hugeBundleProjectExec,
      read_file_sync = (\<lambda>file.
        if file = ''/etc/ssl/huge.pem'' then Inr hugeBundle else Inl (Error ''ENOENT'')),
      exists_sync = (\<lambda>p. False),
      path_resolve = (\<lambda>cwd. Inr [''srv'', ''app'']),
      argument_limit = 100000\<rparr>"

text \<open>Two end markers that overlap in their dashes, and a project whose \<^verbatim>\<open>cafile\<close> names them.\<close>

definition overlappingBundle :: string where
  "overlappingBundle = ''-----END CERTIFICATE-----END CERTIFICATE-----''"

definition overlappingBundleProjectExec :: "string \<Rightarrow> string \<Rightarrow> error + string" where
  "overlappingBundleProjectExec command cwd =
     (if command = ''npm config get cafile'' then Inr (''/etc/ssl/overlap.pem'' @ [LF])
      else if prefix ''npm config get '' command then Inr (''undefined'' @ [LF])
      else Inl (Error ''Command failed''))"

definition overlappingBundleProject :: world where
  "overlappingBundleProject =
     \<lparr>exec_sync = overlappingBundleProjectExec,
      read_file_sync = (\<lambda>file.
        if file = ''/etc/ssl/overlap.pem'' then Inr overlappingBundle else Inl (Error ''ENOENT'')),
      exists_sync = (\<lambda>p. False),
      path_resolve = (\<lambda>cwd. Inr [''srv'', ''app'']),
      argument_limit = 100000\<rparr>"

section \<open>Running the program\<close>

lemma andThen_pure [simp]: "andThen (pure a) f st = f a st"
  by (simp add: andThen_def pure_def)

lemma readConfig_cached:
  "configCache st key = Some v \<Longrightarrow> readConfig w isYarn cwd key st = (Inr v, st)"
  by (simp add: readConfig_def)

lemma readConfig_run:
  "readConfig w isYarn cwd key st = (Inr (readValue w isYarn cwd key st), afterRead w isYarn cwd key st)"
  by (auto simp: readConfig_def readValue_def afterRead_def tryCatch_def andThen_def execSync_def
      cacheSet_def pure_def Let_def split: option.splits sum.splits prod.splits)

lemma andThen_readConfig:
  "andThen (readConfig w isYarn cwd key) f st
     = f (readValue w isYarn cwd key st) (afterRead w isYarn cwd key st)"
  by (simp add: andThen_def readConfig_run)

lemma fst_readConfig: "fst (readConfig w isYarn cwd key st) = Inr (readValue w isYarn cwd key st)"
  by (simp add: readConfig_run)

lemma snd_readConfig: "snd (readConfig w isYarn cwd key st) = afterRead w isYarn cwd key st"
  by (simp add: readConfig_run)

lemma configCache_afterRead:
  "configCache (afterRead w isYarn cwd key st)
     = (configCache st)(key \<mapsto> readValue w isYarn cwd key st)"
  by (auto simp: readConfig_def readValue_def afterRead_def tryCatch_def andThen_def execSync_def
      cacheSet_def pure_def Let_def fun_eq_iff split: option.splits sum.splits prod.splits)

lemma execLog_afterRead:
  "execLog (afterRead w isYarn cwd key st)
     = execLog st @ (if configCache st key = None then [(configGetCommand isYarn key, cwd)] else [])"
  by (auto simp: readConfig_def readValue_def afterRead_def tryCatch_def andThen_def execSync_def
      cacheSet_def pure_def Let_def split: option.splits sum.splits prod.splits)

lemma readValue_cong:
  "configCache st key = configCache st' key
     \<Longrightarrow> readValue w isYarn cwd key st = readValue w isYarn cwd key st'"
  by (auto simp: readConfig_def readValue_def afterRead_def tryCatch_def andThen_def execSync_def
      cacheSet_def pure_def Let_def split: option.splits sum.splits prod.splits)

lemma readValue_afterRead_other:
  "key \<noteq> key' \<Longrightarrow>
   readValue w isYarn cwd key (afterRead w' isYarn' cwd' key' st) = readValue w isYarn cwd key st"
  by (rule readValue_cong) (simp add: configCache_afterRead)

lemma readValue_cached:
  "configCache st key = Some v \<Longrightarrow> readValue w isYarn cwd key st = v"
  by (simp add: readValue_def readConfig_cached)

lemma readValue_uncached:
  "configCache st key = None \<Longrightarrow>
   readValue w isYarn cwd key st =
     (case exec_sync w (configGetCommand isYarn key) cwd of
        Inl e \<Rightarrow> None
      | Inr out \<Rightarrow>
          (if (if isYarn then stripQuotes (trim out) else trim out) = ''undefined''
              \<or> (if isYarn then stripQuotes (trim out) else trim out) = ''null''
           then None else Some (if isYarn then stripQuotes (trim out) else trim out)))"
  by (auto simp: readConfig_def readValue_def tryCatch_def andThen_def execSync_def
      cacheSet_def pure_def Let_def split: option.splits sum.splits prod.splits)

lemma pushCaFile_run:
  "pushCaFile w cafile caArray st = (Inr (caArray @ bundleEntries w cafile), st)"
  by (auto simp: pushCaFile_def bundleEntries_def tryCatch_def andThen_def readFileSync_def pure_def
      pushSpread_def split: option.splits sum.splits)

lemma andThen_pushCaFile:
  "andThen (pushCaFile w cafile caArray) f st = f (caArray @ bundleEntries w cafile) st"
  by (simp add: andThen_def pushCaFile_run)

lemma andThen_orElse:
  "andThen (orElse (readConfig w y c k1) (readConfig w y c k2)) f st =
     (if truthy (readValue w y c k1 st)
      then f (readValue w y c k1 st) (afterRead w y c k1 st)
      else f (readValue w y c k2 (afterRead w y c k1 st))
             (afterRead w y c k2 (afterRead w y c k1 st)))"
  by (simp add: orElse_def andThen_def readConfig_run pure_def)

lemma truthy_Some [simp]: "truthy (Some v) \<longleftrightarrow> v \<noteq> []"
  by (simp add: truthy_def)

lemma truthy_None [simp]: "\<not> truthy None"
  by (simp add: truthy_def)

lemma detectYarn_throws: "detectYarn w cwd = Inl e \<longleftrightarrow> path_resolve w cwd = Inl e"
  by (auto simp: detectYarn_def findUpSync_def split: sum.splits)

lemma detectYarn_returns:
  "(\<exists>isYarn. detectYarn w cwd = Inr isYarn) \<longleftrightarrow> (\<exists>p. path_resolve w cwd = Inr p)"
  by (auto simp: detectYarn_def findUpSync_def split: sum.splits)

lemma getProxyFetchOptions_throws:
  "detectYarn w (npmConfigGetCwd ps) = Inl e \<Longrightarrow> getProxyFetchOptions w ps st = (Inl e, st)"
  by (simp add: getProxyFetchOptions_def andThen_def fromResult_def)

lemma getProxyFetchOptions_value:
  fixes w ps st
  assumes "detectYarn w (npmConfigGetCwd ps) = Inr y"
  defines "V \<equiv> \<lambda>key. readValue w y (npmConfigGetCwd ps) key st"
  shows "fst (getProxyFetchOptions w ps st) =
     Inr \<lparr>proxy = (if truthy (V ''https-proxy'') then V ''https-proxy'' else V ''proxy''),
          noProxy = (case (if truthy (V ''noproxy'') then V ''noproxy'' else V ''no-proxy'') of
                       None \<Rightarrow> [] | Some s \<Rightarrow> splitComma s),
          strictSSL = (V ''strict-ssl'' = Some ''true''),
          cert = V ''cert'',
          ca = (if (if truthy (V ''ca'') then [the (V ''ca'')] else []) @ bundleEntries w (V ''cafile'') = []
                then None
                else Some ((if truthy (V ''ca'') then [the (V ''ca'')] else []) @ bundleEntries w (V ''cafile'')))\<rparr>"
proof -
  have start: "andThen (fromResult (detectYarn w (npmConfigGetCwd ps))) f st = f y st" for f :: "bool \<Rightarrow> FetchOptionsLike comp"
    by (simp add: andThen_def fromResult_def assms(1))
  show ?thesis
    unfolding V_def getProxyFetchOptions_def Let_def start
    by (simp add: andThen_orElse andThen_readConfig andThen_pushCaFile pure_def
        readValue_afterRead_other)
qed

lemma getProxyFetchOptions_state:
  fixes w ps st
  assumes "detectYarn w (npmConfigGetCwd ps) = Inr y"
  defines "c \<equiv> npmConfigGetCwd ps"
  shows "snd (getProxyFetchOptions w ps st) =
     (let s1 = afterRead w y c ''https-proxy'' st;
          s2 = (if truthy (readValue w y c ''https-proxy'' st) then s1
                else afterRead w y c ''proxy'' s1);
          s3 = afterRead w y c ''noproxy'' s2;
          s4 = (if truthy (readValue w y c ''noproxy'' st) then s3
                else afterRead w y c ''no-proxy'' s3)
      in afterRead w y c ''cafile'' (afterRead w y c ''ca''
           (afterRead w y c ''cert'' (afterRead w y c ''strict-ssl'' s4))))"
proof -
  have start: "andThen (fromResult (detectYarn w (npmConfigGetCwd ps))) f st = f y st" for f :: "bool \<Rightarrow> FetchOptionsLike comp"
    by (simp add: andThen_def fromResult_def assms(1))
  show ?thesis
    unfolding c_def getProxyFetchOptions_def Let_def start
    by (simp add: andThen_orElse andThen_readConfig andThen_pushCaFile pure_def
        readValue_afterRead_other)
qed

lemma getProxyFetchOptions_fst:
  "fst (getProxyFetchOptions w ps st) =
     (case detectYarn w (npmConfigGetCwd ps) of
        Inl e \<Rightarrow> Inl e
      | Inr y \<Rightarrow>
          Inr \<lparr>proxy = (if truthy (readValue w y (npmConfigGetCwd ps) ''https-proxy'' st)
                        then readValue w y (npmConfigGetCwd ps) ''https-proxy'' st
                        else readValue w y (npmConfigGetCwd ps) ''proxy'' st),
               noProxy = (case (if truthy (readValue w y (npmConfigGetCwd ps) ''noproxy'' st)
                                then readValue w y (npmConfigGetCwd ps) ''noproxy'' st
                                else readValue w y (npmConfigGetCwd ps) ''no-proxy'' st) of
                            None \<Rightarrow> [] | Some s \<Rightarrow> splitComma s),
               strictSSL = (readValue w y (npmConfigGetCwd ps) ''strict-ssl'' st = Some ''true''),
               cert = readValue w y (npmConfigGetCwd ps) ''cert'' st,
               ca = (if (if truthy (readValue w y (npmConfigGetCwd ps) ''ca'' st)
                         then [the (readValue w y (npmConfigGetCwd ps) ''ca'' st)] else [])
                        @ bundleEntries w (readValue w y (npmConfigGetCwd ps) ''cafile'' st) = []
                     then None
                     else Some ((if truthy (readValue w y (npmConfigGetCwd ps) ''ca'' st)
                                 then [the (readValue w y (npmConfigGetCwd ps) ''ca'' st)] else [])
                        @ bundleEntries w (readValue w y (npmConfigGetCwd ps) ''cafile'' st)))\<rparr>)"
proof (cases "detectYarn w (npmConfigGetCwd ps)")
  case (Inl e)
  then show ?thesis by (simp add: getProxyFetchOptions_throws)
next
  case (Inr y)
  then show ?thesis by (simp add: getProxyFetchOptions_value [OF Inr])
qed

lemma getProxyFetchOptions_snd:
  "snd (getProxyFetchOptions w ps st) =
     (case detectYarn w (npmConfigGetCwd ps) of
        Inl e \<Rightarrow> st
      | Inr y \<Rightarrow>
         (let c = npmConfigGetCwd ps;
              s1 = afterRead w y c ''https-proxy'' st;
              s2 = (if truthy (readValue w y c ''https-proxy'' st) then s1
                    else afterRead w y c ''proxy'' s1);
              s3 = afterRead w y c ''noproxy'' s2;
              s4 = (if truthy (readValue w y c ''noproxy'' st) then s3
                    else afterRead w y c ''no-proxy'' s3)
          in afterRead w y c ''cafile'' (afterRead w y c ''ca''
               (afterRead w y c ''cert'' (afterRead w y c ''strict-ssl'' s4)))))"
proof (cases "detectYarn w (npmConfigGetCwd ps)")
  case (Inl e)
  then show ?thesis by (simp add: getProxyFetchOptions_throws)
next
  case (Inr y)
  then show ?thesis by (simp add: getProxyFetchOptions_state [OF Inr] Let_def)
qed

section \<open>What a process keeps\<close>

lemma evolves_getProxyFetchOptions: "evolves st (snd (getProxyFetchOptions w ps st))"
proof (cases "detectYarn w (npmConfigGetCwd ps)")
  case (Inl e)
  then show ?thesis
    by (simp add: getProxyFetchOptions_throws evolves_refl)
next
  case (Inr y)
  then show ?thesis
    by (simp add: getProxyFetchOptions_snd Let_def evolves.intros)
qed

lemma configGetCommand_eq_iff:
  "configGetCommand y key = configGetCommand y' key' \<longleftrightarrow> y = y' \<and> key = key'"
  by (auto simp: configGetCommand_def)

lemma queriesFor_afterRead:
  "queriesFor key (execLog (afterRead w y c key' st)) =
     queriesFor key (execLog st)
       @ (if key' = key \<and> configCache st key = None then [(configGetCommand y key, c)] else [])"
  by (auto simp: execLog_afterRead queriesFor_def configGetCommand_eq_iff)

lemma evolves_cache_kept:
  "evolves st st' \<Longrightarrow> configCache st key = Some v \<Longrightarrow> configCache st' key = Some v"
  by (induction rule: evolves.induct)
     (auto simp: configCache_afterRead readValue_cached)

lemma evolves_queries:
  "evolves st st' \<Longrightarrow>
   (configCache st' key = None \<longrightarrow> queriesFor key (execLog st') = queriesFor key (execLog st))
   \<and> length (queriesFor key (execLog st')) \<le>
        length (queriesFor key (execLog st)) + (if configCache st key = None then 1 else 0)"
proof (induction rule: evolves.induct)
  case (evolves_refl st)
  then show ?case by simp
next
  case (evolves_read st st' w isYarn cwd key')
  show ?case
  proof (cases "key' = key \<and> configCache st' key = None")
    case True
    with evolves_cache_kept [OF evolves_read.hyps, of key]
    have "configCache st key = None"
      by (cases "configCache st key") auto
    with True evolves_read.IH show ?thesis
      by (simp add: queriesFor_afterRead configCache_afterRead)
  next
    case False
    with evolves_read.IH show ?thesis
      by (auto simp: queriesFor_afterRead configCache_afterRead split: if_splits)
  qed
qed

lemma readValue_noSentinel:
  assumes "noSentinel st"
  shows "readValue w isYarn cwd key st \<noteq> Some ''undefined''
       \<and> readValue w isYarn cwd key st \<noteq> Some ''null''"
proof (cases "configCache st key")
  case None
  then show ?thesis
    by (simp add: readValue_uncached split: sum.splits)
next
  case (Some v)
  with assms show ?thesis
    by (auto simp: readValue_cached noSentinel_def)
qed

lemma noSentinel_afterRead: "noSentinel st \<Longrightarrow> noSentinel (afterRead w isYarn cwd key st)"
  using readValue_noSentinel [of st w isYarn cwd key]
  by (auto simp: noSentinel_def configCache_afterRead)

lemma evolves_noSentinel: "evolves st st' \<Longrightarrow> noSentinel st \<Longrightarrow> noSentinel st'"
  by (induction rule: evolves.induct) (auto intro: noSentinel_afterRead)

lemma noSentinel_initialState: "noSentinel initialState"
  by (simp add: noSentinel_def initialState_def)

lemma readValue_failing:
  assumes "\<forall>command cwd. isl (exec_sync w command cwd)"
    and "\<forall>key v. configCache st key \<noteq> Some (Some v)"
  shows "readValue w isYarn cwd key st = None"
proof (cases "configCache st key")
  case None
  from assms(1) have "isl (exec_sync w (configGetCommand isYarn key) cwd)"
    by blast
  with None show ?thesis
    by (cases "exec_sync w (configGetCommand isYarn key) cwd") (simp_all add: readValue_uncached)
next
  case (Some v)
  with assms(2) show ?thesis
    by (cases v) (auto simp: readValue_cached)
qed

lemma afterRead_failing:
  assumes "\<forall>command cwd. isl (exec_sync w command cwd)"
    and "\<forall>key v. configCache st key \<noteq> Some (Some v)"
  shows "\<forall>key v. configCache (afterRead w isYarn cwd key' st) key \<noteq> Some (Some v)"
  using assms by (simp add: configCache_afterRead readValue_failing)

lemma readConfig_empty_output:
  "configCache st key = None \<Longrightarrow> exec_sync w (configGetCommand isYarn key) cwd = Inr out
   \<Longrightarrow> trim out = [] \<Longrightarrow> fst (readConfig w isYarn cwd key st) = Inr (Some [])"
  by (simp add: fst_readConfig readValue_uncached stripQuotes_def)

section \<open>What the splitting yields\<close>

lemma splitAcc_shape:
  "\<exists>bodies trailing.
      splitAcc acc s = concat (map (\<lambda>b. [b, endCertificate]) bodies) @ [trailing]
    \<and> acc @ s = concat (map (\<lambda>b. b @ endCertificate) bodies) @ trailing"
proof (induction acc s rule: splitAcc.induct)
  case (1 acc)
  show ?case
    by (rule exI [of _ "[]"]) simp
next
  case (2 acc c cs)
  show ?case
  proof (cases "prefix endCertificate (c # cs)")
    case True
    define rest where "rest = drop (length endCertificate) (c # cs)"
    from True have whole: "c # cs = endCertificate @ rest"
      unfolding rest_def by (metis append_eq_conv_conj prefix_def)
    from True have step: "splitAcc acc (c # cs) = acc # endCertificate # splitAcc [] rest"
      unfolding rest_def by simp
    from "2.IH"(1) [OF True] obtain bodies trailing where
      split: "splitAcc [] rest = concat (map (\<lambda>b. [b, endCertificate]) bodies) @ [trailing]"
      and whole': "rest = concat (map (\<lambda>b. b @ endCertificate) bodies) @ trailing"
      unfolding rest_def by auto
    have "splitAcc acc (c # cs)
        = concat (map (\<lambda>b. [b, endCertificate]) (acc # bodies)) @ [trailing]"
      by (simp only: step split) simp
    moreover have "acc @ c # cs
        = concat (map (\<lambda>b. b @ endCertificate) (acc # bodies)) @ trailing"
      by (simp only: whole) (simp add: whole' [symmetric])
    ultimately show ?thesis by blast
  next
    case False
    from "2.IH"(2) [OF False] obtain bodies trailing where
      "splitAcc (acc @ [c]) cs = concat (map (\<lambda>b. [b, endCertificate]) bodies) @ [trailing]"
      and "(acc @ [c]) @ cs = concat (map (\<lambda>b. b @ endCertificate) bodies) @ trailing"
      by auto
    with False have
      "splitAcc acc (c # cs) = concat (map (\<lambda>b. [b, endCertificate]) bodies) @ [trailing]
       \<and> acc @ c # cs = concat (map (\<lambda>b. b @ endCertificate) bodies) @ trailing"
      by simp
    then show ?thesis by blast
  qed
qed

lemma splitAcc_not_Nil: "splitAcc acc s \<noteq> []"
  using splitAcc_shape [of acc s] by auto

lemma chunks_single: "chunks [t] 2 = [[t]]"
  by (simp add: chunks_def)

lemma chunks_pair: "chunks (a # b # rest) 2 = [a, b] # chunks rest 2"
proof -
  have upt: "[0..<Suc (Suc (length rest))] = 0 # Suc 0 # map (\<lambda>i. Suc (Suc i)) [0..<length rest]"
    by (simp add: upt_conv_Cons map_Suc_upt [symmetric] del: upt_Suc)
  have even: "\<And>i. (Suc (Suc i) mod 2 = 0) = (i mod 2 = 0)"
    by presburger
  show ?thesis
    by (simp add: chunks_def upt filter_map comp_def even del: upt_Suc)
qed

lemma chunks_pairs:
  "chunks (concat (map (\<lambda>b. [b, m]) bodies) @ [trailing]) 2
     = map (\<lambda>b. [b, m]) bodies @ [[trailing]]"
  by (induction bodies) (simp_all add: chunks_single chunks_pair)

lemma replaceLineBreaks_no_LF: "LF \<notin> set s \<Longrightarrow> replaceLineBreaks s = s"
  by (induction s rule: replaceLineBreaks.induct) auto

lemma replaceLineBreaks_append:
  "LF \<notin> set t \<Longrightarrow> replaceLineBreaks (s @ t) = replaceLineBreaks s @ t"
proof (induction s rule: replaceLineBreaks.induct)
  case 1
  then show ?case by (simp add: replaceLineBreaks_no_LF)
next
  case (2 c)
  then show ?case
    by (cases t) (auto simp: replaceLineBreaks_no_LF)
next
  case (3 c d cs)
  then show ?case by auto
qed

lemma LF_notin_replaceLineBreaks: "LF \<notin> set (replaceLineBreaks s)"
  by (induction s rule: replaceLineBreaks.induct) (auto simp: newLinePlaceholder_def)

lemma set_removeLeading: "set (removeLeading pat s) \<subseteq> set s"
  by (auto simp: removeLeading_def dest: in_set_dropD)

lemma set_replaceAll: "set (replaceAll pat rep s) \<subseteq> set s \<union> set rep"
proof (induction pat rep s rule: replaceAll.induct)
  case (1 pat rep)
  then show ?case by simp
next
  case (2 pat rep c cs)
  show ?case
  proof (cases "pat \<noteq> [] \<and> prefix pat (c # cs)")
    case True
    with "2.IH"(1) have "set (replaceAll pat rep (drop (length pat) (c # cs)))
        \<subseteq> set (drop (length pat) (c # cs)) \<union> set rep"
      by simp
    moreover have "set (drop (length pat) (c # cs)) \<subseteq> set (c # cs)"
      by (rule set_drop_subset)
    ultimately show ?thesis using True by auto
  next
    case False
    with "2.IH"(2) show ?thesis by auto
  qed
qed

lemma LF_notin_escapeChunk: "LF \<notin> set (escapeChunk caChunk)"
proof -
  have "set (escapeChunk caChunk) \<subseteq> set (replaceLineBreaks (concat caChunk)) \<union> {BACKSLASH, CHR ''n''}"
    unfolding escapeChunk_def
    using set_replaceAll [of newLinePlaceholder "[BACKSLASH, CHR ''n'']"]
      set_removeLeading [of newLinePlaceholder]
    by fastforce
  then show ?thesis
    using LF_notin_replaceLineBreaks [of "concat caChunk"] by auto
qed

lemma prefix_append_foreign:
  assumes "prefix p (xs @ m)" and "m \<noteq> []" and "hd m \<notin> set p"
  shows "prefix p xs"
proof -
  from assms(1) consider "prefix p xs" | us where "p = xs @ us" and "prefix us m"
    by (auto simp: prefix_append)
  then show ?thesis
  proof cases
    case 1
    then show ?thesis .
  next
    case 2
    show ?thesis
    proof (cases us)
      case Nil
      with 2 show ?thesis by simp
    next
      case (Cons u us')
      with 2 assms(2) have "hd m = u"
        by (cases m) auto
      with 2 Cons assms(3) show ?thesis by simp
    qed
  qed
qed

lemma replaceAll_absent:
  "c \<in> set pat \<Longrightarrow> c \<notin> set s \<Longrightarrow> replaceAll pat rep s = s"
proof (induction pat rep s rule: replaceAll.induct)
  case (1 pat rep)
  then show ?case by simp
next
  case (2 pat rep d ds)
  from "2.prems" have "\<not> prefix pat (d # ds)"
    by (meson set_mono_prefix subsetD)
  with 2 show ?case by auto
qed

lemma replaceAll_append_foreign:
  "m \<noteq> [] \<Longrightarrow> hd m \<notin> set pat \<Longrightarrow> c \<in> set pat \<Longrightarrow> c \<notin> set m
   \<Longrightarrow> replaceAll pat rep (s @ m) = replaceAll pat rep s @ m"
proof (induction pat rep s rule: replaceAll.induct)
  case (1 pat rep)
  then show ?case by (simp add: replaceAll_absent)
next
  case (2 pat rep d ds)
  show ?case
  proof (cases "prefix pat ((d # ds) @ m)")
    case True
    with "2.prems" have here: "prefix pat (d # ds)"
      by (blast intro: prefix_append_foreign)
    then have "length pat \<le> length (d # ds)"
      by (rule prefix_length_le)
    then have "drop (length pat) ((d # ds) @ m) = drop (length pat) (d # ds) @ m"
      by (simp only: drop_append) simp
    moreover from "2.prems" have "pat \<noteq> []" by auto
    moreover note "2.IH"(1) [OF _ "2.prems"] True here
    ultimately show ?thesis by simp
  next
    case False
    then have "\<not> prefix pat (d # ds)"
      by (metis prefix_prefix)
    with False "2.IH"(2) [OF _ "2.prems"] show ?thesis by simp
  qed
qed

lemma removeLeading_append_foreign:
  "m \<noteq> [] \<Longrightarrow> hd m \<notin> set pat \<Longrightarrow> removeLeading pat (s @ m) = removeLeading pat s @ m"
proof (cases "prefix pat (s @ m)")
  case True
  assume "m \<noteq> []" and "hd m \<notin> set pat"
  with True have here: "prefix pat s"
    by (blast intro: prefix_append_foreign)
  then have "length pat \<le> length s"
    by (rule prefix_length_le)
  with True here show ?thesis
    by (simp add: removeLeading_def)
next
  case False
  then have "\<not> prefix pat s"
    by (metis prefix_prefix)
  with False show ?thesis
    by (simp add: removeLeading_def)
qed

lemma escapeChunk_pair:
  "escapeChunk [b, endCertificate] = escapeChunk [b] @ endCertificate"
proof -
  have m: "endCertificate \<noteq> []" "hd endCertificate \<notin> set newLinePlaceholder"
    "CHR ''W'' \<in> set newLinePlaceholder" "CHR ''W'' \<notin> set endCertificate"
    "LF \<notin> set endCertificate"
    by (simp_all add: endCertificate_def newLinePlaceholder_def)
  show ?thesis
    by (simp add: escapeChunk_def replaceLineBreaks_append [OF m(5)]
        removeLeading_append_foreign [OF m(1,2)] replaceAll_append_foreign [OF m(1-4)])
qed

lemma escapeChunk_empty: "escapeChunk [[]] = []"
  by (simp add: escapeChunk_def removeLeading_def newLinePlaceholder_def)

lemma no_short_border:
  "list_all (\<lambda>n. \<not> prefix (drop n endCertificate) endCertificate) [1..<20]"
  by (simp add: endCertificate_def upt_rec)

lemma marker_straddle:
  assumes "endCertificate = x @ us" and "x \<noteq> []" and "us \<noteq> []" and "prefix us endCertificate"
  shows "endsInsideMarker x"
proof -
  from assms(1) have x: "x = take (length x) endCertificate"
    and us: "us = drop (length x) endCertificate"
    by (metis append_eq_conv_conj)+
  from assms(1,3) have "length x < 25"
    by (cases us) (auto simp: endCertificate_def dest!: arg_cong [where f = length])
  moreover have "\<not> (1 \<le> length x \<and> length x < 20)"
  proof
    assume "1 \<le> length x \<and> length x < 20"
    then have "length x \<in> {1..<20}" by simp
    with no_short_border have "\<not> prefix (drop (length x) endCertificate) endCertificate"
      unfolding list_all_iff set_upt by blast
    with us assms(4) show False by simp
  qed
  moreover from assms(2) have "1 \<le> length x"
    by (cases x) auto
  ultimately have "length x \<in> {20..<25}" by simp
  moreover from x have "suffix (take (length x) endCertificate) x" by simp
  ultimately show ?thesis
    unfolding endsInsideMarker_def list_ex_iff set_upt by blast
qed

lemma endsInsideMarker_suffix:
  "suffix x' x \<Longrightarrow> endsInsideMarker x' \<Longrightarrow> endsInsideMarker x"
  unfolding endsInsideMarker_def list_ex_iff by (blast intro: suffix_order.trans)

lemma splitAcc_marker: "splitAcc acc endCertificate = [acc, endCertificate, []]"
  by (simp add: endCertificate_def)

lemma last_splitAcc_final_marker:
  "\<not> endsInsideMarker x \<Longrightarrow> last (splitAcc acc (x @ endCertificate)) = []"
proof (induction x arbitrary: acc rule: length_induct)
  case (1 x)
  show ?case
  proof (cases x)
    case Nil
    then show ?thesis by (simp add: splitAcc_marker)
  next
    case (Cons c cs)
    show ?thesis
    proof (cases "prefix endCertificate (x @ endCertificate)")
      case True
      have here: "prefix endCertificate x"
      proof (rule ccontr)
        assume no: "\<not> prefix endCertificate x"
        with True obtain us where us: "endCertificate = x @ us" "prefix us endCertificate"
          by (auto simp: prefix_append)
        with no have "us \<noteq> []" by auto
        with us Cons have "endsInsideMarker x"
          by (intro marker_straddle [of x us]) auto
        with "1.prems" show False by simp
      qed
      define rest where "rest = drop (length endCertificate) x"
      from here have x: "x = endCertificate @ rest"
        unfolding rest_def by (metis append_eq_conv_conj prefix_def)
      from x have "length x = length endCertificate + length rest"
        by (metis length_append)
      then have "length rest < length x"
        by (simp add: endCertificate_def)
      moreover have "\<not> endsInsideMarker rest"
        using "1.prems" endsInsideMarker_suffix [of rest x]
        by (auto simp: rest_def suffix_drop)
      ultimately have IH: "last (splitAcc [] (rest @ endCertificate)) = []"
        using "1.IH" by blast
      from True Cons have "splitAcc acc (x @ endCertificate)
          = acc # endCertificate # splitAcc [] (drop (length endCertificate) (x @ endCertificate))"
        by simp
      moreover have "drop (length endCertificate) (x @ endCertificate) = rest @ endCertificate"
        by (subst x) simp
      ultimately show ?thesis using IH by (simp add: splitAcc_not_Nil)
    next
      case False
      have "\<not> endsInsideMarker cs"
        using "1.prems" endsInsideMarker_suffix [of cs x] Cons
        by (auto simp: suffix_Cons)
      with "1.IH" Cons have "last (splitAcc (acc @ [c]) (cs @ endCertificate)) = []"
        by simp
      with False Cons show ?thesis by simp
    qed
  qed
qed

subsection \<open>Blocks closed by the first marker\<close>

lemma list_ex_upt_Suc:
  "list_ex P [0..<Suc n] \<longleftrightarrow> P 0 \<or> list_ex (\<lambda>i. P (Suc i)) [0..<n]"
proof
  assume "list_ex P [0..<Suc n]"
  then obtain x where x: "x < Suc n" "P x"
    unfolding list_ex_iff set_upt by auto
  then show "P 0 \<or> list_ex (\<lambda>i. P (Suc i)) [0..<n]"
    unfolding list_ex_iff set_upt by (cases x) auto
next
  assume "P 0 \<or> list_ex (\<lambda>i. P (Suc i)) [0..<n]"
  then show "list_ex P [0..<Suc n]"
    unfolding list_ex_iff set_upt by auto
qed

lemma markerAt_0: "markerAt 0 s = prefix endCertificate s"
  by (simp add: markerAt_def)

lemma markerAt_Suc: "markerAt (Suc i) (c # s) = markerAt i s"
  by (simp add: markerAt_def)

lemma markerFree_Nil: "markerFree []"
  by (simp add: markerFree_def)

lemma markerFree_Cons:
  "markerFree (c # s) \<longleftrightarrow> \<not> prefix endCertificate (c # s) \<and> markerFree s"
  by (simp add: markerFree_def list_ex_upt_Suc markerAt_0 markerAt_Suc del: upt_Suc)

lemma closedByFirstMarker_Nil: "closedByFirstMarker []"
  by (simp add: closedByFirstMarker_def)

lemma closedByFirstMarker_Cons:
  "closedByFirstMarker (c # b) \<longleftrightarrow>
     \<not> prefix endCertificate (c # b @ endCertificate) \<and> closedByFirstMarker b"
  by (simp add: closedByFirstMarker_def list_ex_upt_Suc markerAt_0 markerAt_Suc del: upt_Suc)

lemma prefix_long:
  assumes "length p \<le> length u"
  shows "prefix p (u @ v) = prefix p u"
proof
  assume "prefix p (u @ v)"
  then consider "prefix p u" | us where "p = u @ us"
    by (auto simp: prefix_append)
  then show "prefix p u"
  proof cases
    case 1
    then show ?thesis .
  next
    case 2
    with assms show ?thesis by simp
  qed
next
  assume "prefix p u"
  then show "prefix p (u @ v)" by (rule prefix_prefix)
qed

lemma splitAcc_at_marker:
  "splitAcc acc (endCertificate @ rest) = acc # endCertificate # splitAcc [] rest"
proof -
  obtain c cs where m: "endCertificate = c # cs"
    by (simp add: endCertificate_def)
  have "splitAcc acc (c # (cs @ rest))
      = acc # endCertificate # splitAcc [] (drop (length endCertificate) (c # (cs @ rest)))"
    by (simp add: m)
  moreover have "drop (length endCertificate) (c # (cs @ rest)) = rest"
    by (simp add: m)
  ultimately show ?thesis
    by (simp add: m)
qed

lemma splitAcc_closed:
  "closedByFirstMarker b \<Longrightarrow>
   splitAcc acc (b @ endCertificate @ rest) = (acc @ b) # endCertificate # splitAcc [] rest"
proof (induction b arbitrary: acc)
  case Nil
  then show ?case by (simp add: splitAcc_at_marker)
next
  case (Cons c b)
  then have "\<not> prefix endCertificate (c # b @ endCertificate)"
    and closed: "closedByFirstMarker b"
    by (simp_all add: closedByFirstMarker_Cons)
  moreover have "prefix endCertificate ((c # b @ endCertificate) @ rest)
      = prefix endCertificate (c # b @ endCertificate)"
    by (rule prefix_long) simp
  ultimately have no: "\<not> prefix endCertificate ((c # b @ endCertificate) @ rest)"
    by simp
  from no have "splitAcc acc (c # b @ endCertificate @ rest)
      = splitAcc (acc @ [c]) (b @ endCertificate @ rest)"
    by simp
  with Cons.IH [OF closed, of "acc @ [c]"] show ?case by simp
qed

lemma splitAcc_markerFree: "markerFree t \<Longrightarrow> splitAcc acc t = [acc @ t]"
  by (induction t arbitrary: acc) (simp_all add: markerFree_Cons)

lemma split_blocks:
  "\<forall>b\<in>set bodies. closedByFirstMarker b \<Longrightarrow> markerFree trailing \<Longrightarrow>
   splitAcc [] (concat (map (\<lambda>b. b @ endCertificate) bodies) @ trailing)
     = concat (map (\<lambda>b. [b, endCertificate]) bodies) @ [trailing]"
  by (induction bodies) (simp_all add: splitAcc_markerFree splitAcc_closed)

lemma first_marker:
  "markerFree s \<or> (\<exists>b rest. s = b @ endCertificate @ rest \<and> closedByFirstMarker b)"
proof (induction s)
  case Nil
  then show ?case by (simp add: markerFree_Nil)
next
  case (Cons c s)
  show ?case
  proof (cases "prefix endCertificate (c # s)")
    case True
    then obtain rest where "c # s = [] @ endCertificate @ rest"
      by (auto simp: prefix_def)
    then show ?thesis
      using closedByFirstMarker_Nil by blast
  next
    case False
    from Cons.IH show ?thesis
    proof
      assume "markerFree s"
      with False show ?thesis by (simp add: markerFree_Cons)
    next
      assume "\<exists>b rest. s = b @ endCertificate @ rest \<and> closedByFirstMarker b"
      then obtain b rest where s: "s = b @ endCertificate @ rest" and b: "closedByFirstMarker b"
        by blast
      from False s have "\<not> prefix endCertificate ((c # b @ endCertificate) @ rest)"
        by simp
      moreover have "prefix endCertificate ((c # b @ endCertificate) @ rest)
          = prefix endCertificate (c # b @ endCertificate)"
        by (rule prefix_long) simp
      ultimately have "\<not> prefix endCertificate (c # b @ endCertificate)"
        by simp
      with b have "closedByFirstMarker (c # b)"
        by (simp add: closedByFirstMarker_Cons)
      moreover from s have "c # s = (c # b) @ endCertificate @ rest" by simp
      ultimately show ?thesis by blast
    qed
  qed
qed

lemma blocks_exist:
  "\<exists>bodies trailing.
      s = concat (map (\<lambda>b. b @ endCertificate) bodies) @ trailing
    \<and> (\<forall>b\<in>set bodies. closedByFirstMarker b) \<and> markerFree trailing"
proof (induction s rule: length_induct)
  case (1 s)
  from first_marker [of s] show ?case
  proof
    assume "markerFree s"
    then have "s = concat (map (\<lambda>b. b @ endCertificate) []) @ s
        \<and> (\<forall>b\<in>set []. closedByFirstMarker b) \<and> markerFree s"
      by simp
    then show ?thesis by blast
  next
    assume "\<exists>b rest. s = b @ endCertificate @ rest \<and> closedByFirstMarker b"
    then obtain b rest where s: "s = b @ endCertificate @ rest" and b: "closedByFirstMarker b"
      by blast
    then have "length rest < length s" by (simp add: endCertificate_def)
    with "1.IH" obtain bodies trailing where
      rest: "rest = concat (map (\<lambda>b. b @ endCertificate) bodies) @ trailing"
      and ok: "\<forall>b\<in>set bodies. closedByFirstMarker b" "markerFree trailing"
      by blast
    from s rest b ok have "s = concat (map (\<lambda>b. b @ endCertificate) (b # bodies)) @ trailing
        \<and> (\<forall>b\<in>set (b # bodies). closedByFirstMarker b) \<and> markerFree trailing"
      by simp
    then show ?thesis by blast
  qed
qed

lemma caFileEntries_blocks:
  assumes "\<forall>b\<in>set bodies. closedByFirstMarker b" and "markerFree trailing"
  shows "splitOnEndCertificate (concat (map (\<lambda>b. b @ endCertificate) bodies) @ trailing)
      = concat (map (\<lambda>b. [b, endCertificate]) bodies) @ [trailing]"
    and "caFileEntries (concat (map (\<lambda>b. b @ endCertificate) bodies) @ trailing)
      = map (\<lambda>b. escapeChunk [b] @ endCertificate) bodies @ [escapeChunk [trailing]]"
  using split_blocks [OF assms]
  by (simp_all add: splitOnEndCertificate_def caFileEntries_def chunks_pairs escapeChunk_pair)

lemma loneCR_Cons: "loneCR cs \<Longrightarrow> loneCR (x # cs)"
  by (cases cs) auto

lemma loneCR_prepend: "loneCR xs \<Longrightarrow> loneCR (ps @ xs)"
  by (induction ps) (auto intro: loneCR_Cons)

lemma loneCR_append: "loneCR xs \<Longrightarrow> last xs \<noteq> CR \<Longrightarrow> loneCR (xs @ ys)"
proof (induction xs rule: loneCR.induct)
  case 1
  then show ?case by simp
next
  case (2 c)
  then show ?case by simp
next
  case (3 c d cs)
  show ?case
  proof (cases "c = CR \<and> d \<noteq> LF")
    case True
    then show ?thesis by simp
  next
    case False
    with 3 have "loneCR ((d # cs) @ ys)" by auto
    then have "loneCR (c # (d # cs) @ ys)" by (rule loneCR_Cons)
    then show ?thesis by simp
  qed
qed

lemma CR_replaceLineBreaks: "CR \<in> set (replaceLineBreaks s) \<Longrightarrow> loneCR s"
proof (induction s rule: replaceLineBreaks.induct)
  case 1
  then show ?case by simp
next
  case (2 c)
  then show ?case by (auto simp: newLinePlaceholder_def split: if_splits)
next
  case (3 c d cs)
  then show ?case
    by (auto simp: newLinePlaceholder_def split: if_splits intro: loneCR_Cons)
qed

lemma CR_escapeChunk: "CR \<in> set (escapeChunk caChunk) \<Longrightarrow> loneCR (concat caChunk)"
proof -
  assume cr: "CR \<in> set (escapeChunk caChunk)"
  have "set (escapeChunk caChunk) \<subseteq> set (replaceLineBreaks (concat caChunk)) \<union> {BACKSLASH, CHR ''n''}"
    unfolding escapeChunk_def
    using set_replaceAll [of newLinePlaceholder "[BACKSLASH, CHR ''n'']"]
      set_removeLeading [of newLinePlaceholder]
    by fastforce
  with cr have "CR \<in> set (replaceLineBreaks (concat caChunk))" by auto
  then show ?thesis by (rule CR_replaceLineBreaks)
qed

lemma CR_entries:
  "CR \<in> set (concat (map (\<lambda>b. escapeChunk [b] @ endCertificate) bodies @ [escapeChunk [trailing]]))
   \<Longrightarrow> loneCR (concat (map (\<lambda>b. b @ endCertificate) bodies) @ trailing)"
proof (induction bodies)
  case Nil
  then show ?case using CR_escapeChunk [of "[trailing]"] by simp
next
  case (Cons b bodies)
  let ?rest = "concat (map (\<lambda>b. b @ endCertificate) bodies) @ trailing"
  have m: "last (b @ endCertificate) \<noteq> CR"
    by (simp add: endCertificate_def)
  from Cons.prems consider "CR \<in> set (escapeChunk [b, endCertificate])"
    | "CR \<in> set (concat (map (\<lambda>b. escapeChunk [b] @ endCertificate) bodies @ [escapeChunk [trailing]]))"
    by (auto simp: escapeChunk_pair)
  then have "loneCR ((b @ endCertificate) @ ?rest)"
  proof cases
    case 1
    then have "loneCR (b @ endCertificate)"
      using CR_escapeChunk [of "[b, endCertificate]"] by simp
    then show ?thesis using m by (rule loneCR_append)
  next
    case 2
    then have "loneCR ?rest" by (rule Cons.IH)
    then show ?thesis by (rule loneCR_prepend)
  qed
  then show ?case by simp
qed

section \<open>The claims\<close>

subsection \<open>Evaluation on the sample environments\<close>

lemma readValue_fresh:
  "readValue w isYarn cwd key initialState =
     (case exec_sync w (configGetCommand isYarn key) cwd of
        Inl e \<Rightarrow> None
      | Inr out \<Rightarrow>
          (if (if isYarn then stripQuotes (trim out) else trim out) = ''undefined''
              \<or> (if isYarn then stripQuotes (trim out) else trim out) = ''null''
           then None else Some (if isYarn then stripQuotes (trim out) else trim out)))"
  by (simp add: readValue_uncached initialState_def)

lemma sample_exec:
  "exec_sync npmProject = npmProjectExec" "exec_sync emptyFirstKeys = emptyFirstKeysExec"
  "exec_sync emptyValues = emptyValuesExec" "exec_sync yarnProject = yarnProjectExec"
  "exec_sync hugeBundleProject = hugeBundleProjectExec"
  "exec_sync overlappingBundleProject = overlappingBundleProjectExec"
  by (simp_all add: npmProject_def emptyFirstKeys_def emptyValues_def yarnProject_def
      hugeBundleProject_def overlappingBundleProject_def)

lemma sample_detect:
  "detectYarn noManager ''/srv/app'' = Inr False" "detectYarn npmProject ''/srv/app'' = Inr False"
  "detectYarn emptyFirstKeys ''/srv/app'' = Inr False"
  "detectYarn emptyValues ''/srv/app'' = Inr False"
  "detectYarn yarnProject ''/srv/app'' = Inr True"
  "detectYarn yarnProject ''/other'' = Inr True"
  "detectYarn hugeBundleProject ''/srv/app'' = Inr False"
  "detectYarn overlappingBundleProject ''/srv/app'' = Inr False"
  "detectYarn lostCwd ''app'' = Inl (Error ''ENOENT: no such file or directory, uv_cwd'')"
  by (simp_all add: detectYarn_def findUpSync_def findUpLoop.simps noManager_def npmProject_def
      emptyFirstKeys_def emptyValues_def yarnProject_def hugeBundleProject_def
      overlappingBundleProject_def lostCwd_def)

lemma start_state:
  "configCache initialState = Map.empty" "execLog initialState = []"
  by (simp_all add: initialState_def)

lemma read_noManager: "readValue noManager isYarn cwd key initialState = None"
  by (simp add: readValue_fresh noManager_def)

lemma read_npmProject:
  "readValue npmProject False ''/srv/app'' ''https-proxy'' initialState = Some ''http://proxy:8080''"
  "readValue npmProject False ''/srv/app'' ''proxy'' initialState = Some ''http://fallback:3128''"
  "readValue npmProject False ''/srv/app'' ''noproxy'' initialState = Some ''localhost,127.0.0.1''"
  "readValue npmProject False ''/srv/app'' ''no-proxy'' initialState = None"
  "readValue npmProject False ''/srv/app'' ''strict-ssl'' initialState = Some ''True''"
  "readValue npmProject False ''/srv/app'' ''cert'' initialState = None"
  "readValue npmProject False ''/srv/app'' ''ca'' initialState = None"
  "readValue npmProject False ''/srv/app'' ''cafile'' initialState = None"
  by (simp_all only: readValue_fresh sample_exec) code_simp+

lemma read_emptyFirstKeys:
  "readValue emptyFirstKeys False ''/srv/app'' ''https-proxy'' initialState = Some []"
  "readValue emptyFirstKeys False ''/srv/app'' ''proxy'' initialState = Some ''http://fallback:3128''"
  "readValue emptyFirstKeys False ''/srv/app'' ''noproxy'' initialState = Some []"
  "readValue emptyFirstKeys False ''/srv/app'' ''no-proxy'' initialState
     = Some ''internal.example,.local''"
  "readValue emptyFirstKeys False ''/srv/app'' ''strict-ssl'' initialState = Some ''1''"
  "readValue emptyFirstKeys False ''/srv/app'' ''cert'' initialState = None"
  "readValue emptyFirstKeys False ''/srv/app'' ''ca'' initialState = None"
  "readValue emptyFirstKeys False ''/srv/app'' ''cafile'' initialState = None"
  by (simp_all only: readValue_fresh sample_exec) code_simp+

lemma read_emptyValues:
  "readValue emptyValues False ''/srv/app'' ''https-proxy'' initialState = Some []"
  "readValue emptyValues False ''/srv/app'' ''proxy'' initialState = Some []"
  "readValue emptyValues False ''/srv/app'' ''noproxy'' initialState = Some []"
  "readValue emptyValues False ''/srv/app'' ''no-proxy'' initialState
     = Some ''internal.example,.local''"
  "readValue emptyValues False ''/srv/app'' ''strict-ssl'' initialState = None"
  "readValue emptyValues False ''/srv/app'' ''cert'' initialState = None"
  "readValue emptyValues False ''/srv/app'' ''ca'' initialState = Some []"
  "readValue emptyValues False ''/srv/app'' ''cafile'' initialState = None"
  by (simp_all only: readValue_fresh sample_exec) code_simp+

lemma read_yarnProject:
  "readValue yarnProject True cwd ''https-proxy'' initialState = Some ''http://proxy:8080''"
  "readValue yarnProject True cwd ''proxy'' initialState = None"
  "readValue yarnProject True cwd ''noproxy'' initialState = None"
  "readValue yarnProject True cwd ''no-proxy'' initialState = None"
  "readValue yarnProject True cwd ''strict-ssl'' initialState = Some ''true''"
  "readValue yarnProject True cwd ''cert'' initialState
     = Some ([DQUOTE] @ ''BEGIN'' @ [LF] @ ''END'' @ [DQUOTE])"
  "readValue yarnProject True cwd ''ca'' initialState = None"
  "readValue yarnProject True cwd ''cafile'' initialState = Some ''/etc/ssl/bundle.pem''"
  by (simp_all only: readValue_fresh sample_exec) code_simp+

lemma read_hugeBundleProject:
  "readValue hugeBundleProject False ''/srv/app'' ''https-proxy'' initialState = None"
  "readValue hugeBundleProject False ''/srv/app'' ''proxy'' initialState = None"
  "readValue hugeBundleProject False ''/srv/app'' ''noproxy'' initialState = None"
  "readValue hugeBundleProject False ''/srv/app'' ''no-proxy'' initialState = None"
  "readValue hugeBundleProject False ''/srv/app'' ''strict-ssl'' initialState = None"
  "readValue hugeBundleProject False ''/srv/app'' ''cert'' initialState = None"
  "readValue hugeBundleProject False ''/srv/app'' ''ca'' initialState = None"
  "readValue hugeBundleProject False ''/srv/app'' ''cafile'' initialState
     = Some ''/etc/ssl/huge.pem''"
  by (simp_all only: readValue_fresh sample_exec) code_simp+

lemma read_overlappingBundleProject:
  "readValue overlappingBundleProject False ''/srv/app'' ''https-proxy'' initialState = None"
  "readValue overlappingBundleProject False ''/srv/app'' ''proxy'' initialState = None"
  "readValue overlappingBundleProject False ''/srv/app'' ''noproxy'' initialState = None"
  "readValue overlappingBundleProject False ''/srv/app'' ''no-proxy'' initialState = None"
  "readValue overlappingBundleProject False ''/srv/app'' ''strict-ssl'' initialState = None"
  "readValue overlappingBundleProject False ''/srv/app'' ''cert'' initialState = None"
  "readValue overlappingBundleProject False ''/srv/app'' ''ca'' initialState = None"
  "readValue overlappingBundleProject False ''/srv/app'' ''cafile'' initialState
     = Some ''/etc/ssl/overlap.pem''"
  by (simp_all only: readValue_fresh sample_exec) code_simp+

lemma example_entries:
  "caFileEntries exampleBundle =
     [''CERT1-----END CERTIFICATE-----'', ''CERT2-----END CERTIFICATE-----'', []]"
  "caFileEntries [] = [[]]"
  "caFileEntries overlappingBundle = [''-----END CERTIFICATE-----'', ''END CERTIFICATE-----'']"
  by code_simp+

lemma hugeBundle_entries: "length (caFileEntries hugeBundle) = 150001"
proof -
  have "hugeBundle = concat (map (\<lambda>b. b @ endCertificate) (replicate 150000 [])) @ []"
    unfolding hugeBundle_def by (simp only: map_replicate append_Nil append_Nil2)
  moreover have "\<forall>b\<in>set (replicate 150000 []). closedByFirstMarker b"
    by (simp only: set_replicate_conv_if) (simp add: closedByFirstMarker_Nil)
  ultimately have "caFileEntries hugeBundle
      = map (\<lambda>b. escapeChunk [b] @ endCertificate) (replicate 150000 []) @ [escapeChunk [[]]]"
    using caFileEntries_blocks(2) [of "replicate 150000 []" "[]"] markerFree_Nil
    by simp
  then show ?thesis
    by (simp only: length_append length_map length_replicate) simp
qed

lemma sample_bundles:
  "bundleEntries w None = []"
  "bundleEntries yarnProject (Some ''/etc/ssl/bundle.pem'') =
     [''CERT1-----END CERTIFICATE-----'', ''CERT2-----END CERTIFICATE-----'', []]"
  "bundleEntries overlappingBundleProject (Some ''/etc/ssl/overlap.pem'') =
     [''-----END CERTIFICATE-----'', ''END CERTIFICATE-----'']"
  "bundleEntries hugeBundleProject (Some ''/etc/ssl/huge.pem'') = []"
  by (simp_all add: bundleEntries_def yarnProject_def overlappingBundleProject_def
      hugeBundleProject_def example_entries hugeBundle_entries)

lemmas sample_reads = read_noManager read_npmProject read_emptyFirstKeys read_emptyValues
  read_yarnProject read_hugeBundleProject read_overlappingBundleProject

lemma run_samples:
  "fst (getProxyFetchOptions noManager srvApp initialState) =
     Inr \<lparr>proxy = None, noProxy = [], strictSSL = False, cert = None, ca = None\<rparr>"
  "fst (getProxyFetchOptions npmProject srvApp initialState) =
     Inr \<lparr>proxy = Some ''http://proxy:8080'', noProxy = [''localhost'', ''127.0.0.1''],
          strictSSL = False, cert = None, ca = None\<rparr>"
  "fst (getProxyFetchOptions emptyFirstKeys srvApp initialState) =
     Inr \<lparr>proxy = Some ''http://fallback:3128'', noProxy = [''internal.example'', ''.local''],
          strictSSL = False, cert = None, ca = None\<rparr>"
  "fst (getProxyFetchOptions emptyValues srvApp initialState) =
     Inr \<lparr>proxy = Some [], noProxy = [''internal.example'', ''.local''],
          strictSSL = False, cert = None, ca = None\<rparr>"
  "fst (getProxyFetchOptions yarnProject srvApp initialState) =
     Inr \<lparr>proxy = Some ''http://proxy:8080'', noProxy = [], strictSSL = True,
          cert = Some ([DQUOTE] @ ''BEGIN'' @ [LF] @ ''END'' @ [DQUOTE]),
          ca = Some [''CERT1-----END CERTIFICATE-----'', ''CERT2-----END CERTIFICATE-----'', []]\<rparr>"
  "fst (getProxyFetchOptions overlappingBundleProject srvApp initialState) =
     Inr \<lparr>proxy = None, noProxy = [], strictSSL = False, cert = None,
          ca = Some [''-----END CERTIFICATE-----'', ''END CERTIFICATE-----'']\<rparr>"
  "fst (getProxyFetchOptions hugeBundleProject srvApp initialState) =
     Inr \<lparr>proxy = None, noProxy = [], strictSSL = False, cert = None, ca = None\<rparr>"
  by (simp_all add: getProxyFetchOptions_fst srvApp_def sample_detect sample_reads
      sample_bundles)

lemma log_samples:
  "execLog (snd (getProxyFetchOptions npmProject srvApp initialState)) =
     [(''npm config get https-proxy'', ''/srv/app''), (''npm config get noproxy'', ''/srv/app''),
      (''npm config get strict-ssl'', ''/srv/app''), (''npm config get cert'', ''/srv/app''),
      (''npm config get ca'', ''/srv/app''), (''npm config get cafile'', ''/srv/app'')]"
  "execLog (snd (getProxyFetchOptions emptyFirstKeys srvApp initialState)) =
     [(''npm config get https-proxy'', ''/srv/app''), (''npm config get proxy'', ''/srv/app''),
      (''npm config get noproxy'', ''/srv/app''), (''npm config get no-proxy'', ''/srv/app''),
      (''npm config get strict-ssl'', ''/srv/app''), (''npm config get cert'', ''/srv/app''),
      (''npm config get ca'', ''/srv/app''), (''npm config get cafile'', ''/srv/app'')]"
  "execLog (snd (getProxyFetchOptions emptyValues srvApp initialState)) =
     [(''npm config get https-proxy'', ''/srv/app''), (''npm config get proxy'', ''/srv/app''),
      (''npm config get noproxy'', ''/srv/app''), (''npm config get no-proxy'', ''/srv/app''),
      (''npm config get strict-ssl'', ''/srv/app''), (''npm config get cert'', ''/srv/app''),
      (''npm config get ca'', ''/srv/app''), (''npm config get cafile'', ''/srv/app'')]"
  by (simp_all add: getProxyFetchOptions_snd srvApp_def sample_detect sample_reads Let_def
      execLog_afterRead configCache_afterRead start_state configGetCommand_def)

subsection \<open>Totality and the defaults\<close>

text \<open>
  The claim C2 as it is written fails where \<^verbatim>\<open>path.resolve\<close> throws: the resolver is
  called with a relative working directory in a process that has lost its own, line 17 is
  outside every \<^verbatim>\<open>try\<close>, and the error reaches the caller.
\<close>

theorem total_and_fail_open_counterexample:
  "path_resolve lostCwd (npmConfigGetCwd relativeApp)
     = Inl (Error ''ENOENT: no such file or directory, uv_cwd'')
   \<and> getProxyFetchOptions lostCwd relativeApp initialState
     = (Inl (Error ''ENOENT: no such file or directory, uv_cwd''), initialState)"
  by (simp add: getProxyFetchOptions_throws relativeApp_def sample_detect) (simp add: lostCwd_def)

text \<open>
  Claim C2, amended. \<^verbatim>\<open>getProxyFetchOptions\<close> lets no error of a config-query
  invocation, of reading the bundle file or of adding its entries reach its caller: it
  returns an options structure exactly when \<^verbatim>\<open>path.resolve\<close> returns for the working
  directory, and throws what \<^verbatim>\<open>path.resolve\<close> throws otherwise, leaving the state as it
  was. When \<^verbatim>\<open>path.resolve\<close> returns, every invocation of the config-query command
  fails, and the process holds no value from an earlier invocation (as in a fresh
  process), the result is
  \<^verbatim>\<open>{ proxy: undefined, noProxy: [], strictSSL: false, cert: undefined, ca: undefined }\<close>,
  and the process still holds no value afterwards, so the same is true of every later call.
\<close>

theorem total_and_fail_open:
  "((\<exists>opts. fst (getProxyFetchOptions w ps st) = Inr opts)
      \<longleftrightarrow> (\<exists>p. path_resolve w (npmConfigGetCwd ps) = Inr p))
   \<and> (path_resolve w (npmConfigGetCwd ps) = Inl e
      \<longrightarrow> getProxyFetchOptions w ps st = (Inl e, st))
   \<and> ((\<exists>p. path_resolve w (npmConfigGetCwd ps) = Inr p)
        \<and> (\<forall>command cwd. isl (exec_sync w command cwd))
        \<and> (\<forall>key v. configCache st key \<noteq> Some (Some v))
      \<longrightarrow> fst (getProxyFetchOptions w ps st) =
            Inr \<lparr>proxy = None, noProxy = [], strictSSL = False, cert = None, ca = None\<rparr>
        \<and> (\<forall>key v. configCache (snd (getProxyFetchOptions w ps st)) key \<noteq> Some (Some v)))"
proof (intro conjI impI)
  show "(\<exists>opts. fst (getProxyFetchOptions w ps st) = Inr opts)
      \<longleftrightarrow> (\<exists>p. path_resolve w (npmConfigGetCwd ps) = Inr p)"
    unfolding detectYarn_returns [symmetric]
    by (cases "detectYarn w (npmConfigGetCwd ps)") (simp_all add: getProxyFetchOptions_fst)
next
  assume "path_resolve w (npmConfigGetCwd ps) = Inl e"
  then show "getProxyFetchOptions w ps st = (Inl e, st)"
    by (simp add: getProxyFetchOptions_throws detectYarn_throws)
next
  assume failing: "(\<exists>p. path_resolve w (npmConfigGetCwd ps) = Inr p)
        \<and> (\<forall>command cwd. isl (exec_sync w command cwd))
        \<and> (\<forall>key v. configCache st key \<noteq> Some (Some v))"
  then obtain y where y: "detectYarn w (npmConfigGetCwd ps) = Inr y"
    using detectYarn_returns by blast
  from failing show "fst (getProxyFetchOptions w ps st) =
      Inr \<lparr>proxy = None, noProxy = [], strictSSL = False, cert = None, ca = None\<rparr>"
    by (simp add: getProxyFetchOptions_fst y readValue_failing bundleEntries_def)
next
  assume failing: "(\<exists>p. path_resolve w (npmConfigGetCwd ps) = Inr p)
        \<and> (\<forall>command cwd. isl (exec_sync w command cwd))
        \<and> (\<forall>key v. configCache st key \<noteq> Some (Some v))"
  then have fails: "\<forall>command cwd. isl (exec_sync w command cwd)"
    and start: "\<forall>key v. configCache st key \<noteq> Some (Some v)"
    by blast+
  from failing obtain y where y: "detectYarn w (npmConfigGetCwd ps) = Inr y"
    using detectYarn_returns by blast
  note step = afterRead_failing [OF fails]
  have none: "\<And>isYarn cwd key. readValue w isYarn cwd key st = None"
    by (rule readValue_failing [OF fails start])
  show "\<forall>key v. configCache (snd (getProxyFetchOptions w ps st)) key \<noteq> Some (Some v)"
    unfolding getProxyFetchOptions_state [OF y] Let_def none
    by (simp only: truthy_None if_False) (intro step start)
qed

theorem total_and_fail_open_witness:
  "path_resolve noManager (npmConfigGetCwd srvApp) = Inr [''srv'', ''app'']
   \<and> (\<forall>command cwd. isl (exec_sync noManager command cwd))
   \<and> (\<forall>key v. configCache initialState key \<noteq> Some (Some v))
   \<and> fst (getProxyFetchOptions noManager srvApp initialState) =
       Inr \<lparr>proxy = None, noProxy = [], strictSSL = False, cert = None, ca = None\<rparr>
   \<and> path_resolve lostCwd (npmConfigGetCwd relativeApp)
       = Inl (Error ''ENOENT: no such file or directory, uv_cwd'')
   \<and> getProxyFetchOptions lostCwd relativeApp initialState
       = (Inl (Error ''ENOENT: no such file or directory, uv_cwd''), initialState)"
proof -
  have resolved: "path_resolve noManager (npmConfigGetCwd srvApp) = Inr [''srv'', ''app'']"
    and silent: "\<forall>command cwd. isl (exec_sync noManager command cwd)"
    by (simp_all add: noManager_def)
  have fresh: "\<forall>key v. configCache initialState key \<noteq> Some (Some v)"
    by (simp add: initialState_def)
  have lost: "path_resolve lostCwd (npmConfigGetCwd relativeApp)
       = Inl (Error ''ENOENT: no such file or directory, uv_cwd'')"
    by (simp add: lostCwd_def relativeApp_def)
  from total_and_fail_open [of noManager srvApp initialState] resolved silent fresh
  have "fst (getProxyFetchOptions noManager srvApp initialState) =
       Inr \<lparr>proxy = None, noProxy = [], strictSSL = False, cert = None, ca = None\<rparr>"
    by blast
  moreover from total_and_fail_open [of lostCwd relativeApp initialState
      "Error ''ENOENT: no such file or directory, uv_cwd''"] lost
  have "getProxyFetchOptions lostCwd relativeApp initialState
       = (Inl (Error ''ENOENT: no such file or directory, uv_cwd''), initialState)"
    by blast
  ultimately show ?thesis
    using resolved silent fresh lost by blast
qed

subsection \<open>Memoization\<close>

text \<open>
  Claim C3. In a process that started with the empty cache, whatever calls of
  \<^verbatim>\<open>readConfig\<close> have been made, the config-query command has been invoked at most once
  for each key. A call of the resolver is a sequence of such calls. Once a key has been
  read, every later read of it, also by a later call of the resolver for another working
  directory, manager kind or environment, returns what the first read returned (a value or
  absence) and leaves the state, and so the list of invocations, as it is.
\<close>

theorem memoization:
  assumes "evolves initialState st"
  shows "length (queriesFor key (execLog st)) \<le> 1
     \<and> evolves st (snd (getProxyFetchOptions w0 ps st))
     \<and> (evolves (snd (readConfig w isYarn cwd key st)) st' \<longrightarrow>
          readConfig w' isYarn' cwd' key st' = (fst (readConfig w isYarn cwd key st), st'))"
proof (intro conjI impI)
  from evolves_queries [OF assms, of key]
  show "length (queriesFor key (execLog st)) \<le> 1"
    by (simp add: initialState_def queriesFor_def)
next
  show "evolves st (snd (getProxyFetchOptions w0 ps st))"
    by (rule evolves_getProxyFetchOptions)
next
  assume "evolves (snd (readConfig w isYarn cwd key st)) st'"
  then have "configCache st' key = Some (readValue w isYarn cwd key st)"
    by (rule evolves_cache_kept) (simp add: configCache_afterRead snd_readConfig)
  then show "readConfig w' isYarn' cwd' key st' = (fst (readConfig w isYarn cwd key st), st')"
    by (simp add: readConfig_cached fst_readConfig)
qed

theorem memoization_witness:
  "evolves initialState initialState
   \<and> evolves (snd (readConfig npmProject False ''/srv/app'' ''proxy'' initialState))
       (snd (getProxyFetchOptions yarnProject \<lparr>npmConfigGetCwd = ''/other''\<rparr>
          (snd (readConfig npmProject False ''/srv/app'' ''proxy'' initialState))))
   \<and> fst (readConfig yarnProject True ''/other'' ''proxy''
       (snd (getProxyFetchOptions yarnProject \<lparr>npmConfigGetCwd = ''/other''\<rparr>
          (snd (readConfig npmProject False ''/srv/app'' ''proxy'' initialState)))))
       = Inr (Some ''http://fallback:3128'')
   \<and> length (queriesFor ''proxy'' (execLog initialState)) \<le> 1"
  using memoization [OF evolves_refl, of "''proxy''" yarnProject "\<lparr>npmConfigGetCwd = ''/other''\<rparr>"
      npmProject False "''/srv/app''"
      "snd (getProxyFetchOptions yarnProject \<lparr>npmConfigGetCwd = ''/other''\<rparr>
          (snd (readConfig npmProject False ''/srv/app'' ''proxy'' initialState)))"
      yarnProject True "''/other''"]
    evolves_getProxyFetchOptions [of "snd (readConfig npmProject False ''/srv/app'' ''proxy'' initialState)"
      yarnProject "\<lparr>npmConfigGetCwd = ''/other''\<rparr>"]
  by (simp add: evolves_refl fst_readConfig read_npmProject)

subsection \<open>The sentinels\<close>

text \<open>
  Claim C5. For both manager kinds, when the command is run and its normalised output
  (trimmed, and for the alternate manager unquoted) is the text \<^verbatim>\<open>undefined\<close> or
  \<^verbatim>\<open>null\<close>, \<^verbatim>\<open>readConfig\<close> returns absence and stores absence in the cache. In a
  process that started with the empty cache, \<^verbatim>\<open>readConfig\<close> never returns one of these
  two texts as a value, whether it runs the command or answers from the cache.
\<close>

theorem sentinel_mapping:
  assumes "evolves initialState st"
  shows "fst (readConfig w isYarn cwd key st) \<noteq> Inr (Some ''undefined'')
     \<and> fst (readConfig w isYarn cwd key st) \<noteq> Inr (Some ''null'')
     \<and> (configCache st key = None
          \<and> exec_sync w (configGetCommand isYarn key) cwd = Inr out
          \<and> ((if isYarn then stripQuotes (trim out) else trim out) = ''undefined''
              \<or> (if isYarn then stripQuotes (trim out) else trim out) = ''null'')
        \<longrightarrow> fst (readConfig w isYarn cwd key st) = Inr None
            \<and> configCache (snd (readConfig w isYarn cwd key st)) key = Some None)"
proof -
  from assms have "noSentinel st"
    by (rule evolves_noSentinel) (rule noSentinel_initialState)
  from readValue_noSentinel [OF this, of w isYarn cwd key]
  show ?thesis
    by (auto simp: fst_readConfig snd_readConfig configCache_afterRead readValue_uncached)
qed

lemma sentinel_outputs:
  "stripQuotes (trim ([DQUOTE] @ ''undefined'' @ [DQUOTE, LF])) = ''undefined''"
  "trim (''null'' @ [LF]) = ''null''"
  by code_simp+

theorem sentinel_mapping_witness:
  "evolves initialState initialState
   \<and> configCache initialState ''noproxy'' = None
   \<and> exec_sync yarnProject (configGetCommand True ''noproxy'') ''/srv/app''
       = Inr ([DQUOTE] @ ''undefined'' @ [DQUOTE, LF])
   \<and> stripQuotes (trim ([DQUOTE] @ ''undefined'' @ [DQUOTE, LF])) = ''undefined''
   \<and> fst (readConfig yarnProject True ''/srv/app'' ''noproxy'' initialState) = Inr None
   \<and> exec_sync npmProject (configGetCommand False ''cafile'') ''/srv/app'' = Inr (''null'' @ [LF])
   \<and> trim (''null'' @ [LF]) = ''null''
   \<and> fst (readConfig npmProject False ''/srv/app'' ''cafile'' initialState) = Inr None"
  using sentinel_mapping [OF evolves_refl, of yarnProject True "''/srv/app''" "''noproxy''"
      "[DQUOTE] @ ''undefined'' @ [DQUOTE, LF]"]
    sentinel_mapping [OF evolves_refl, of npmProject False "''/srv/app''" "''cafile''"
      "''null'' @ [LF]"]
    sentinel_outputs
  by (simp add: evolves_refl initialState_def sample_exec yarnProjectExec_def npmProjectExec_def
      configGetCommand_def)

subsection \<open>The strict-SSL flag\<close>

text \<open>
  Claim C7. \<^verbatim>\<open>strictSSL\<close> is true exactly when the value read for the key
  \<^verbatim>\<open>strict-ssl\<close> is the text \<^verbatim>\<open>true\<close>. Every other value, such as \<^verbatim>\<open>1\<close> or
  \<^verbatim>\<open>True\<close>, absence, and a failed invocation give false. This is said of every call
  that gets as far as reading the configuration, that is, whose detection of the manager
  returns.
\<close>

theorem strictSSL_iff_true:
  fixes w ps st
  defines "c \<equiv> npmConfigGetCwd ps"
  assumes "detectYarn w (npmConfigGetCwd ps) = Inr y"
  shows "\<exists>opts. fst (getProxyFetchOptions w ps st) = Inr opts
     \<and> strictSSL opts = (fst (readConfig w y c ''strict-ssl'' st) = Inr (Some ''true''))
     \<and> (fst (readConfig w y c ''strict-ssl'' st) = Inr (Some ''1'') \<longrightarrow> \<not> strictSSL opts)
     \<and> (fst (readConfig w y c ''strict-ssl'' st) = Inr (Some ''True'') \<longrightarrow> \<not> strictSSL opts)
     \<and> (fst (readConfig w y c ''strict-ssl'' st) = Inr None \<longrightarrow> \<not> strictSSL opts)
     \<and> (configCache st ''strict-ssl'' = None
          \<and> isl (exec_sync w (configGetCommand y ''strict-ssl'') c) \<longrightarrow> \<not> strictSSL opts)"
  unfolding c_def
  by (auto simp: getProxyFetchOptions_value [OF assms(2)] fst_readConfig readValue_uncached
      split: sum.splits)

theorem strictSSL_iff_true_witness:
  "detectYarn npmProject (npmConfigGetCwd srvApp) = Inr False
   \<and> fst (readConfig npmProject False ''/srv/app'' ''strict-ssl'' initialState) = Inr (Some ''True'')
   \<and> (\<exists>opts. fst (getProxyFetchOptions npmProject srvApp initialState) = Inr opts
         \<and> \<not> strictSSL opts)
   \<and> detectYarn emptyFirstKeys (npmConfigGetCwd srvApp) = Inr False
   \<and> fst (readConfig emptyFirstKeys False ''/srv/app'' ''strict-ssl'' initialState)
       = Inr (Some ''1'')
   \<and> (\<exists>opts. fst (getProxyFetchOptions emptyFirstKeys srvApp initialState) = Inr opts
         \<and> \<not> strictSSL opts)
   \<and> detectYarn noManager (npmConfigGetCwd srvApp) = Inr False
   \<and> fst (readConfig noManager False ''/srv/app'' ''strict-ssl'' initialState) = Inr None
   \<and> configCache initialState ''strict-ssl'' = None
   \<and> isl (exec_sync noManager (configGetCommand False ''strict-ssl'') ''/srv/app'')
   \<and> (\<exists>opts. fst (getProxyFetchOptions noManager srvApp initialState) = Inr opts
         \<and> \<not> strictSSL opts)
   \<and> detectYarn yarnProject (npmConfigGetCwd srvApp) = Inr True
   \<and> (\<exists>opts. fst (getProxyFetchOptions yarnProject srvApp initialState) = Inr opts
         \<and> strictSSL opts)"
proof -
  have detected: "detectYarn npmProject (npmConfigGetCwd srvApp) = Inr False"
    "detectYarn emptyFirstKeys (npmConfigGetCwd srvApp) = Inr False"
    "detectYarn noManager (npmConfigGetCwd srvApp) = Inr False"
    "detectYarn yarnProject (npmConfigGetCwd srvApp) = Inr True"
    by (simp_all add: srvApp_def sample_detect)
  have unread: "configCache initialState ''strict-ssl'' = None"
    by (simp add: initialState_def)
  have fails: "isl (exec_sync noManager (configGetCommand False ''strict-ssl'') ''/srv/app'')"
    by (simp add: noManager_def)
  show ?thesis
    using strictSSL_iff_true [OF detected(1), of initialState]
      strictSSL_iff_true [OF detected(2), of initialState]
      strictSSL_iff_true [OF detected(3), of initialState]
      strictSSL_iff_true [OF detected(4), of initialState]
      unread fails detected
    by (simp add: srvApp_def fst_readConfig sample_reads) blast
qed

subsection \<open>The final rule for the CA list\<close>

text \<open>
  Claim C8. The \<^verbatim>\<open>ca\<close> field of the result is absent when the assembled list, the
  value of the key \<^verbatim>\<open>ca\<close> (if it is truthy) followed by the entries added for the bundle
  file, is empty, and is that list otherwise; it is never an empty list. This is said of
  every call whose detection of the manager returns.
\<close>

theorem final_ca_rule:
  fixes w ps st
  defines "c \<equiv> npmConfigGetCwd ps"
  assumes "detectYarn w (npmConfigGetCwd ps) = Inr y"
  shows "\<exists>opts caValue cafile.
      fst (getProxyFetchOptions w ps st) = Inr opts
    \<and> fst (readConfig w y c ''ca'' st) = Inr caValue
    \<and> fst (readConfig w y c ''cafile'' st) = Inr cafile
    \<and> ca opts =
        (if (if truthy caValue then [the caValue] else []) @ bundleEntries w cafile = [] then None
         else Some ((if truthy caValue then [the caValue] else []) @ bundleEntries w cafile))
    \<and> ca opts \<noteq> Some []"
  unfolding c_def
  by (simp add: getProxyFetchOptions_value [OF assms(2)] fst_readConfig)

theorem final_ca_rule_witness:
  "detectYarn npmProject (npmConfigGetCwd srvApp) = Inr False
   \<and> (\<exists>opts. fst (getProxyFetchOptions npmProject srvApp initialState) = Inr opts
         \<and> fst (readConfig npmProject False ''/srv/app'' ''ca'' initialState) = Inr None
         \<and> fst (readConfig npmProject False ''/srv/app'' ''cafile'' initialState) = Inr None
         \<and> bundleEntries npmProject None = []
         \<and> ca opts = None)
   \<and> detectYarn yarnProject (npmConfigGetCwd srvApp) = Inr True
   \<and> (\<exists>opts. fst (getProxyFetchOptions yarnProject srvApp initialState) = Inr opts
         \<and> fst (readConfig yarnProject True ''/srv/app'' ''ca'' initialState) = Inr None
         \<and> fst (readConfig yarnProject True ''/srv/app'' ''cafile'' initialState)
             = Inr (Some ''/etc/ssl/bundle.pem'')
         \<and> ca opts = Some (bundleEntries yarnProject (Some ''/etc/ssl/bundle.pem'')))"
proof -
  have detected: "detectYarn npmProject (npmConfigGetCwd srvApp) = Inr False"
    "detectYarn yarnProject (npmConfigGetCwd srvApp) = Inr True"
    by (simp_all add: srvApp_def sample_detect)
  show ?thesis
    using final_ca_rule [OF detected(1), of initialState]
      final_ca_rule [OF detected(2), of initialState] detected
    by (simp add: srvApp_def fst_readConfig sample_reads sample_bundles) blast
qed

subsection \<open>Priority of the first key\<close>

text \<open>
  The claim C4 as it is written fails where the first key is set to the empty text: the
  value is present, yet the second key is queried and its value is the result.
\<close>

theorem first_key_priority_counterexample:
  "fst (readConfig emptyFirstKeys False ''/srv/app'' ''https-proxy'' initialState) = Inr (Some [])
   \<and> fst (getProxyFetchOptions emptyFirstKeys srvApp initialState) =
       Inr \<lparr>proxy = Some ''http://fallback:3128'', noProxy = [''internal.example'', ''.local''],
            strictSSL = False, cert = None, ca = None\<rparr>
   \<and> (''npm config get proxy'', ''/srv/app'')
       \<in> set (execLog (snd (getProxyFetchOptions emptyFirstKeys srvApp initialState)))
   \<and> (''npm config get no-proxy'', ''/srv/app'')
       \<in> set (execLog (snd (getProxyFetchOptions emptyFirstKeys srvApp initialState)))"
  by (simp add: run_samples log_samples fst_readConfig read_emptyFirstKeys)

text \<open>
  Claim C4, amended. The first key (\<^verbatim>\<open>https-proxy\<close>, respectively \<^verbatim>\<open>noproxy\<close>) takes
  priority over the second (\<^verbatim>\<open>proxy\<close>, respectively \<^verbatim>\<open>no-proxy\<close>): if the first key
  yields a present value that is not the empty text, that value is the result (split at
  the commas for \<^verbatim>\<open>noProxy\<close>) and the second key is not queried: its cache entry stays
  as it was and no invocation for it is added. This is said of every call whose detection
  of the manager returns.
\<close>

theorem first_key_priority:
  fixes w ps st
  defines "c \<equiv> npmConfigGetCwd ps"
  defines "st' \<equiv> snd (getProxyFetchOptions w ps st)"
  assumes "detectYarn w (npmConfigGetCwd ps) = Inr y"
  shows "\<exists>opts. fst (getProxyFetchOptions w ps st) = Inr opts
     \<and> (\<forall>v. fst (readConfig w y c ''https-proxy'' st) = Inr (Some v) \<and> v \<noteq> [] \<longrightarrow>
            proxy opts = Some v
          \<and> configCache st' ''proxy'' = configCache st ''proxy''
          \<and> queriesFor ''proxy'' (execLog st') = queriesFor ''proxy'' (execLog st))
     \<and> (\<forall>v. fst (readConfig w y c ''noproxy'' st) = Inr (Some v) \<and> v \<noteq> [] \<longrightarrow>
            noProxy opts = splitComma v
          \<and> configCache st' ''no-proxy'' = configCache st ''no-proxy''
          \<and> queriesFor ''no-proxy'' (execLog st') = queriesFor ''no-proxy'' (execLog st))"
  unfolding c_def st'_def
  by (simp add: getProxyFetchOptions_value [OF assms(3)] getProxyFetchOptions_state [OF assms(3)]
      fst_readConfig Let_def configCache_afterRead queriesFor_afterRead)

theorem first_key_priority_witness:
  "detectYarn npmProject (npmConfigGetCwd srvApp) = Inr False
   \<and> fst (readConfig npmProject False ''/srv/app'' ''https-proxy'' initialState)
     = Inr (Some ''http://proxy:8080'')
   \<and> ''http://proxy:8080'' \<noteq> []
   \<and> fst (readConfig npmProject False ''/srv/app'' ''noproxy'' initialState)
     = Inr (Some ''localhost,127.0.0.1'')
   \<and> ''localhost,127.0.0.1'' \<noteq> []
   \<and> (\<exists>opts. fst (getProxyFetchOptions npmProject srvApp initialState) = Inr opts
         \<and> proxy opts = Some ''http://proxy:8080''
         \<and> noProxy opts = splitComma ''localhost,127.0.0.1'')
   \<and> configCache (snd (getProxyFetchOptions npmProject srvApp initialState)) ''proxy'' = None
   \<and> configCache (snd (getProxyFetchOptions npmProject srvApp initialState)) ''no-proxy'' = None
   \<and> queriesFor ''proxy'' (execLog (snd (getProxyFetchOptions npmProject srvApp initialState))) = []
   \<and> queriesFor ''no-proxy'' (execLog (snd (getProxyFetchOptions npmProject srvApp initialState)))
       = []"
proof -
  have detected: "detectYarn npmProject (npmConfigGetCwd srvApp) = Inr False"
    by (simp add: srvApp_def sample_detect)
  show ?thesis
    using first_key_priority [OF detected, of initialState] detected
    by (simp add: srvApp_def fst_readConfig read_npmProject start_state queriesFor_def) blast
qed

subsection \<open>Empty values\<close>

text \<open>
  Claim C10. A value that is present but empty (the command succeeded and its trimmed
  output is the empty text) counts as unset in the assembly. When the first key of
  \<^verbatim>\<open>proxy\<close> or of \<^verbatim>\<open>noProxy\<close> yields the empty text, the second key is read, so it is
  in the cache afterwards and, if it was not cached before, the command has been invoked
  for it, and the field is made from what the second key yields. An empty value of
  \<^verbatim>\<open>ca\<close> is not put into the CA list. When both proxy keys yield the empty text, the
  \<^verbatim>\<open>proxy\<close> field is the empty text, not absent. This is said of every call whose
  detection of the manager returns.
\<close>

theorem empty_value_is_falsy:
  fixes w ps st
  defines "c \<equiv> npmConfigGetCwd ps"
  defines "st' \<equiv> snd (getProxyFetchOptions w ps st)"
  assumes "detectYarn w (npmConfigGetCwd ps) = Inr y"
  shows "\<exists>opts. fst (getProxyFetchOptions w ps st) = Inr opts
     \<and> (fst (readConfig w y c ''https-proxy'' st) = Inr (Some []) \<longrightarrow>
            Inr (proxy opts) = fst (readConfig w y c ''proxy'' st)
          \<and> configCache st' ''proxy'' = Some (proxy opts)
          \<and> (configCache st ''proxy'' = None \<longrightarrow>
               queriesFor ''proxy'' (execLog st') =
                 queriesFor ''proxy'' (execLog st) @ [(configGetCommand y ''proxy'', c)]))
     \<and> (fst (readConfig w y c ''noproxy'' st) = Inr (Some []) \<longrightarrow>
            (\<exists>second. fst (readConfig w y c ''no-proxy'' st) = Inr second
               \<and> noProxy opts = (case second of None \<Rightarrow> [] | Some s \<Rightarrow> splitComma s)
               \<and> configCache st' ''no-proxy'' = Some second)
          \<and> (configCache st ''no-proxy'' = None \<longrightarrow>
               queriesFor ''no-proxy'' (execLog st') =
                 queriesFor ''no-proxy'' (execLog st) @ [(configGetCommand y ''no-proxy'', c)]))
     \<and> (fst (readConfig w y c ''ca'' st) = Inr (Some []) \<longrightarrow>
            (\<exists>cafile. fst (readConfig w y c ''cafile'' st) = Inr cafile
               \<and> ca opts = (if bundleEntries w cafile = [] then None
                            else Some (bundleEntries w cafile))))
     \<and> (fst (readConfig w y c ''https-proxy'' st) = Inr (Some [])
          \<and> fst (readConfig w y c ''proxy'' st) = Inr (Some []) \<longrightarrow> proxy opts = Some [])
     \<and> (\<forall>key out isYarn cwd. configCache st key = None
          \<and> exec_sync w (configGetCommand isYarn key) cwd = Inr out \<and> trim out = [] \<longrightarrow>
          fst (readConfig w isYarn cwd key st) = Inr (Some []))"
proof -
  note res = getProxyFetchOptions_value [OF assms(3)]
  note fin = getProxyFetchOptions_state [OF assms(3)]
  have empty: "\<forall>key out isYarn cwd. configCache st key = None
          \<and> exec_sync w (configGetCommand isYarn key) cwd = Inr out \<and> trim out = [] \<longrightarrow>
          fst (readConfig w isYarn cwd key st) = Inr (Some [])"
    by (blast intro: readConfig_empty_output)
  show ?thesis
    unfolding c_def st'_def
    apply (rule exI, intro conjI)
         apply (simp add: res)
        apply (simp add: res fin fst_readConfig
        Let_def configCache_afterRead queriesFor_afterRead readValue_afterRead_other)
       apply (simp add: res fin fst_readConfig
        Let_def configCache_afterRead queriesFor_afterRead readValue_afterRead_other)
      apply (simp add: res fst_readConfig)
     apply (simp add: res fst_readConfig)
    apply (rule empty)
    done
qed

lemma trim_newline: "trim [LF] = []"
  by code_simp

theorem empty_value_is_falsy_witness:
  "detectYarn emptyValues (npmConfigGetCwd srvApp) = Inr False
   \<and> fst (readConfig emptyValues False ''/srv/app'' ''https-proxy'' initialState) = Inr (Some [])
   \<and> fst (readConfig emptyValues False ''/srv/app'' ''proxy'' initialState) = Inr (Some [])
   \<and> fst (readConfig emptyValues False ''/srv/app'' ''noproxy'' initialState) = Inr (Some [])
   \<and> fst (readConfig emptyValues False ''/srv/app'' ''ca'' initialState) = Inr (Some [])
   \<and> configCache initialState ''proxy'' = None
   \<and> configCache initialState ''no-proxy'' = None
   \<and> configCache initialState ''https-proxy'' = None
   \<and> exec_sync emptyValues (configGetCommand False ''https-proxy'') ''/srv/app'' = Inr [LF]
   \<and> trim [LF] = []
   \<and> (\<exists>opts. fst (getProxyFetchOptions emptyValues srvApp initialState) = Inr opts
         \<and> proxy opts = Some []
         \<and> noProxy opts = [''internal.example'', ''.local'']
         \<and> ca opts = None)
   \<and> configCache (snd (getProxyFetchOptions emptyValues srvApp initialState)) ''proxy''
       = Some (Some [])
   \<and> configCache (snd (getProxyFetchOptions emptyValues srvApp initialState)) ''no-proxy''
       = Some (Some ''internal.example,.local'')
   \<and> queriesFor ''proxy'' (execLog (snd (getProxyFetchOptions emptyValues srvApp initialState)))
       = [(''npm config get proxy'', ''/srv/app'')]
   \<and> queriesFor ''no-proxy'' (execLog (snd (getProxyFetchOptions emptyValues srvApp initialState)))
       = [(''npm config get no-proxy'', ''/srv/app'')]"
proof -
  have detected: "detectYarn emptyValues (npmConfigGetCwd srvApp) = Inr False"
    by (simp add: srvApp_def sample_detect)
  have out: "exec_sync emptyValues ''npm config get https-proxy'' ''/srv/app'' = Inr [LF]"
    by (simp add: sample_exec emptyValuesExec_def)
  show ?thesis
    using empty_value_is_falsy [OF detected, of initialState] detected
    by (simp add: srvApp_def fst_readConfig read_emptyValues start_state out sample_bundles
        queriesFor_def configGetCommand_def trim_newline) auto
qed

subsection \<open>The entries of a bundle file\<close>

lemma LF_notin_caFileEntries: "LF \<notin> set (concat (caFileEntries s))"
  by (auto simp: caFileEntries_def LF_notin_escapeChunk)

lemma CR_caFileEntries: "CR \<in> set (concat (caFileEntries s)) \<Longrightarrow> loneCR s"
proof -
  assume cr: "CR \<in> set (concat (caFileEntries s))"
  from blocks_exist [of s] obtain bodies trailing where
    s: "s = concat (map (\<lambda>b. b @ endCertificate) bodies) @ trailing"
    and ok: "\<forall>b\<in>set bodies. closedByFirstMarker b" "markerFree trailing"
    by blast
  from cr show ?thesis
    by (subst s, intro CR_entries) (simp add: s caFileEntries_blocks(2) [OF ok])
qed

lemma example_blocks:
  "exampleBundle = concat (map (\<lambda>b. b @ endCertificate) [''CERT1'', LF # ''CERT2'']) @ []"
  "closedByFirstMarker ''CERT1''" "closedByFirstMarker (LF # ''CERT2'')" "markerFree []"
  "splitOnEndCertificate exampleBundle
     = [''CERT1'', ''-----END CERTIFICATE-----'', LF # ''CERT2'', ''-----END CERTIFICATE-----'', []]"
  "escapeChunk [''CERT1''] = ''CERT1''" "escapeChunk [LF # ''CERT2''] = ''CERT2''"
  "escapeChunk [[]] = []"
  "caFileEntries (''A'' @ [CR] @ ''B'') = [''A'' @ [CR] @ ''B'']"
  "loneCR (''A'' @ [CR] @ ''B'')"
  by code_simp+

text \<open>
  The claim C1 as it is written fails at its own example: the text behind the second
  marker, here the empty text, becomes a third entry, which does not end in the marker.
  An empty file gives one entry as well.
\<close>

theorem bundle_split_counterexample:
  "caFileEntries exampleBundle =
     [''CERT1-----END CERTIFICATE-----'', ''CERT2-----END CERTIFICATE-----'', []]
   \<and> length (caFileEntries exampleBundle) \<noteq> 2
   \<and> \<not> suffix endCertificate (last (caFileEntries exampleBundle))
   \<and> caFileEntries [] = [[]]
   \<and> read_file_sync yarnProject ''/etc/ssl/bundle.pem'' = Inr exampleBundle
   \<and> fst (getProxyFetchOptions yarnProject srvApp initialState) =
       Inr \<lparr>proxy = Some ''http://proxy:8080'', noProxy = [], strictSSL = True,
            cert = Some ([DQUOTE] @ ''BEGIN'' @ [LF] @ ''END'' @ [DQUOTE]),
            ca = Some [''CERT1-----END CERTIFICATE-----'', ''CERT2-----END CERTIFICATE-----'',
                       []]\<rparr>"
proof -
  have "read_file_sync yarnProject ''/etc/ssl/bundle.pem'' = Inr exampleBundle"
    by (simp add: yarnProject_def)
  then show ?thesis
    by (simp add: example_entries run_samples endCertificate_def suffix_def)
qed

text \<open>
  Claim C1, amended. For every bundle file whose read succeeds, the entries of its content
  are added to the CA list, unless they are more than the engine accepts as arguments of
  one call: then, as after a failed read, none is added. The content is split at the
  markers \<^verbatim>\<open>-----END CERTIFICATE-----\<close>, found from left to right without overlap:
  every content is, in one way only, a sequence of blocks, each a text closed by the first
  marker behind its start, followed by a text that holds no marker. Each block becomes
  one entry, which ends in the marker. The text behind the last marker (the whole content
  when there is no marker) becomes one further, last entry, also when it is empty. No
  entry contains a line feed, and an entry contains a carriage return only if the content
  has one that no line feed follows. So the example yields three entries: the two blocks,
  each ending in the marker, and the empty text; none of them contains a line break.
\<close>

theorem bundle_split:
  "fst (pushCaFile w (Some file) caArray st) =
     Inr (caArray @ (case read_file_sync w file of
                       Inl e \<Rightarrow> []
                     | Inr content \<Rightarrow>
                         if length (caFileEntries content) \<le> argument_limit w
                         then caFileEntries content else []))
   \<and> (\<exists>bodies trailing.
        cafileContent = concat (map (\<lambda>b. b @ endCertificate) bodies) @ trailing
      \<and> (\<forall>b\<in>set bodies. closedByFirstMarker b) \<and> markerFree trailing)
   \<and> (\<forall>bodies trailing.
        cafileContent = concat (map (\<lambda>b. b @ endCertificate) bodies) @ trailing
      \<and> (\<forall>b\<in>set bodies. closedByFirstMarker b) \<and> markerFree trailing
      \<longrightarrow> splitOnEndCertificate cafileContent
            = concat (map (\<lambda>b. [b, endCertificate]) bodies) @ [trailing]
        \<and> caFileEntries cafileContent
            = map (\<lambda>b. escapeChunk [b] @ endCertificate) bodies @ [escapeChunk [trailing]])
   \<and> LF \<notin> set (concat (caFileEntries cafileContent))
   \<and> (CR \<in> set (concat (caFileEntries cafileContent)) \<longrightarrow> loneCR cafileContent)
   \<and> caFileEntries exampleBundle =
       [''CERT1-----END CERTIFICATE-----'', ''CERT2-----END CERTIFICATE-----'', []]
   \<and> LF \<notin> set (concat (caFileEntries exampleBundle))
   \<and> CR \<notin> set (concat (caFileEntries exampleBundle))"
proof (intro conjI allI impI)
  show "fst (pushCaFile w (Some file) caArray st) =
     Inr (caArray @ (case read_file_sync w file of
                       Inl e \<Rightarrow> []
                     | Inr content \<Rightarrow>
                         if length (caFileEntries content) \<le> argument_limit w
                         then caFileEntries content else []))"
    by (simp add: pushCaFile_run bundleEntries_def)
next
  show "\<exists>bodies trailing.
        cafileContent = concat (map (\<lambda>b. b @ endCertificate) bodies) @ trailing
      \<and> (\<forall>b\<in>set bodies. closedByFirstMarker b) \<and> markerFree trailing"
    by (rule blocks_exist)
next
  fix bodies trailing
  assume "cafileContent = concat (map (\<lambda>b. b @ endCertificate) bodies) @ trailing
      \<and> (\<forall>b\<in>set bodies. closedByFirstMarker b) \<and> markerFree trailing"
  then show "splitOnEndCertificate cafileContent
      = concat (map (\<lambda>b. [b, endCertificate]) bodies) @ [trailing]"
    and "caFileEntries cafileContent
      = map (\<lambda>b. escapeChunk [b] @ endCertificate) bodies @ [escapeChunk [trailing]]"
    by (simp_all add: caFileEntries_blocks)
next
  show "LF \<notin> set (concat (caFileEntries cafileContent))"
    by (rule LF_notin_caFileEntries)
next
  assume "CR \<in> set (concat (caFileEntries cafileContent))"
  then show "loneCR cafileContent" by (rule CR_caFileEntries)
next
  show "caFileEntries exampleBundle =
       [''CERT1-----END CERTIFICATE-----'', ''CERT2-----END CERTIFICATE-----'', []]"
    by (rule example_entries)
next
  show "LF \<notin> set (concat (caFileEntries exampleBundle))"
    and "CR \<notin> set (concat (caFileEntries exampleBundle))"
    by (simp_all add: example_entries)
qed

theorem bundle_split_witness:
  "exampleBundle = concat (map (\<lambda>b. b @ endCertificate) [''CERT1'', LF # ''CERT2'']) @ []
   \<and> closedByFirstMarker ''CERT1'' \<and> closedByFirstMarker (LF # ''CERT2'')
   \<and> markerFree []
   \<and> splitOnEndCertificate exampleBundle
       = [''CERT1'', endCertificate, LF # ''CERT2'', endCertificate, []]
   \<and> caFileEntries exampleBundle
       = [escapeChunk [''CERT1''] @ endCertificate, escapeChunk [LF # ''CERT2''] @ endCertificate,
          escapeChunk [[]]]
   \<and> CR \<in> set (concat (caFileEntries (''A'' @ [CR] @ ''B'')))
   \<and> loneCR (''A'' @ [CR] @ ''B'')"
proof -
  have blocks: "exampleBundle
        = concat (map (\<lambda>b. b @ endCertificate) [''CERT1'', LF # ''CERT2'']) @ []
      \<and> (\<forall>b\<in>set [''CERT1'', LF # ''CERT2'']. closedByFirstMarker b) \<and> markerFree []"
    using example_blocks(1-4) by simp
  have cr: "CR \<in> set (concat (caFileEntries (''A'' @ [CR] @ ''B'')))"
    by (simp only: example_blocks(9)) simp
  from bundle_split [of _ _ _ _ exampleBundle] blocks
  have "splitOnEndCertificate exampleBundle
        = concat (map (\<lambda>b. [b, endCertificate]) [''CERT1'', LF # ''CERT2'']) @ [[]]
      \<and> caFileEntries exampleBundle
        = map (\<lambda>b. escapeChunk [b] @ endCertificate) [''CERT1'', LF # ''CERT2'']
            @ [escapeChunk [[]]]"
    by blast
  moreover from bundle_split [of _ _ _ _ "''A'' @ [CR] @ ''B''"] cr
  have "loneCR (''A'' @ [CR] @ ''B'')"
    by blast
  ultimately show ?thesis
    using blocks cr by simp
qed

subsection \<open>A bundle file that was read\<close>

lemma caFileEntries_last:
  "caFileEntries s \<noteq> [] \<and> last (caFileEntries s) = escapeChunk [last (splitOnEndCertificate s)]"
proof -
  from blocks_exist [of s] obtain bodies trailing where
    s: "s = concat (map (\<lambda>b. b @ endCertificate) bodies) @ trailing"
    and ok: "\<forall>b\<in>set bodies. closedByFirstMarker b" "markerFree trailing"
    by blast
  show ?thesis
    by (subst (1 2 3) s) (simp add: caFileEntries_blocks [OF ok])
qed

lemma overlapping_markers:
  "overlappingBundle = ''-----END CERTIFICATE'' @ endCertificate"
  "endsInsideMarker ''-----END CERTIFICATE''"
  "last (caFileEntries overlappingBundle) = ''END CERTIFICATE-----''"
  by code_simp+

text \<open>
  The claim C9 as it is written fails in two places. A file of two markers that overlap
  in their dashes ends with the end marker, yet the split finds the first marker only and
  the entries added are that marker and the text behind it: no empty text is added. And
  a file of 150000 markers, read where the engine accepts 100000 arguments, makes the
  spread call of line 110 throw; the \<^verbatim>\<open>catch\<close> of line 120 swallows the error, no entry
  is added, and \<^verbatim>\<open>ca\<close> is absent although \<^verbatim>\<open>cafile\<close> is configured and the file was
  read.
\<close>

theorem cafile_adds_entry_counterexample:
  "fst (readConfig overlappingBundleProject False ''/srv/app'' ''cafile'' initialState)
     = Inr (Some ''/etc/ssl/overlap.pem'')
   \<and> read_file_sync overlappingBundleProject ''/etc/ssl/overlap.pem'' = Inr overlappingBundle
   \<and> overlappingBundle = ''-----END CERTIFICATE'' @ endCertificate
   \<and> fst (getProxyFetchOptions overlappingBundleProject srvApp initialState) =
       Inr \<lparr>proxy = None, noProxy = [], strictSSL = False, cert = None,
            ca = Some [''-----END CERTIFICATE-----'', ''END CERTIFICATE-----'']\<rparr>
   \<and> fst (readConfig hugeBundleProject False ''/srv/app'' ''cafile'' initialState)
     = Inr (Some ''/etc/ssl/huge.pem'')
   \<and> read_file_sync hugeBundleProject ''/etc/ssl/huge.pem'' = Inr hugeBundle
   \<and> length (caFileEntries hugeBundle) = 150001
   \<and> argument_limit hugeBundleProject = 100000
   \<and> fst (getProxyFetchOptions hugeBundleProject srvApp initialState) =
       Inr \<lparr>proxy = None, noProxy = [], strictSSL = False, cert = None, ca = None\<rparr>"
proof -
  have "read_file_sync overlappingBundleProject ''/etc/ssl/overlap.pem'' = Inr overlappingBundle"
    and "read_file_sync hugeBundleProject ''/etc/ssl/huge.pem'' = Inr hugeBundle"
    and "argument_limit hugeBundleProject = 100000"
    by (simp_all add: overlappingBundleProject_def hugeBundleProject_def)
  then show ?thesis
    using overlapping_markers(1)
    by (simp add: fst_readConfig sample_reads run_samples hugeBundle_entries)
qed

text \<open>
  Claim C9, amended. Whenever the key \<^verbatim>\<open>cafile\<close> is configured, the bundle file is read
  and its entries are not more than the engine accepts as arguments of one call, the
  entries of the file are appended to the CA list, and there is at least one of them, so
  the \<^verbatim>\<open>ca\<close> field of the result is not absent; with more entries none is appended. For
  the empty file the one entry is the empty text. For a file that ends with the end
  marker the last entry is the empty text, provided that the split finds a marker at the
  very end, that is, its last piece is empty; it does so whenever the text before that
  marker does not end inside another marker, one that would overlap it. This is said of
  every call whose detection of the manager returns.
\<close>

theorem cafile_adds_entry:
  fixes w ps st
  defines "c \<equiv> npmConfigGetCwd ps"
  assumes "detectYarn w (npmConfigGetCwd ps) = Inr y"
    and "fst (readConfig w y c ''cafile'' st) = Inr (Some file)"
    and "read_file_sync w file = Inr content"
  shows "\<exists>opts caValue.
      fst (getProxyFetchOptions w ps st) = Inr opts
    \<and> fst (readConfig w y c ''ca'' st) = Inr caValue
    \<and> (length (caFileEntries content) \<le> argument_limit w \<longrightarrow>
          ca opts = Some ((if truthy caValue then [the caValue] else []) @ caFileEntries content)
        \<and> ca opts \<noteq> None)
    \<and> (argument_limit w < length (caFileEntries content) \<longrightarrow>
          ca opts = (if truthy caValue then Some [the caValue] else None))
    \<and> caFileEntries content \<noteq> []
    \<and> caFileEntries [] = [[]]
    \<and> (last (splitOnEndCertificate content) = [] \<longrightarrow> last (caFileEntries content) = [])
    \<and> (\<forall>body. content = body @ endCertificate \<and> \<not> endsInsideMarker body
          \<longrightarrow> last (splitOnEndCertificate content) = []
            \<and> last (caFileEntries content) = [])"
proof -
  from assms(3) have cafile: "readValue w y (npmConfigGetCwd ps) ''cafile'' st = Some file"
    by (simp add: fst_readConfig c_def)
  with assms(4) have entries: "bundleEntries w (readValue w y (npmConfigGetCwd ps) ''cafile'' st)
      = (if length (caFileEntries content) \<le> argument_limit w then caFileEntries content else [])"
    by (simp add: bundleEntries_def)
  have final: "\<forall>body. content = body @ endCertificate \<and> \<not> endsInsideMarker body
          \<longrightarrow> last (splitOnEndCertificate content) = []
            \<and> last (caFileEntries content) = []"
    by (auto simp: caFileEntries_last splitOnEndCertificate_def last_splitAcc_final_marker
        escapeChunk_empty)
  have found: "last (splitOnEndCertificate content) = [] \<longrightarrow> last (caFileEntries content) = []"
    by (simp add: caFileEntries_last escapeChunk_empty)
  from caFileEntries_last [of content] have some: "caFileEntries content \<noteq> []"
    by simp
  show ?thesis
    using entries some final found
    unfolding c_def
    by (simp add: getProxyFetchOptions_value [OF assms(2)] fst_readConfig example_entries)
qed

lemma example_body:
  "exampleBundle = (''CERT1-----END CERTIFICATE-----'' @ [LF] @ ''CERT2'') @ endCertificate"
  "\<not> endsInsideMarker (''CERT1-----END CERTIFICATE-----'' @ [LF] @ ''CERT2'')"
  "last (splitOnEndCertificate exampleBundle) = []"
  by code_simp+

theorem cafile_adds_entry_witness:
  "detectYarn yarnProject (npmConfigGetCwd srvApp) = Inr True
   \<and> fst (readConfig yarnProject True (npmConfigGetCwd srvApp) ''cafile'' initialState)
     = Inr (Some ''/etc/ssl/bundle.pem'')
   \<and> read_file_sync yarnProject ''/etc/ssl/bundle.pem'' = Inr exampleBundle
   \<and> length (caFileEntries exampleBundle) \<le> argument_limit yarnProject
   \<and> exampleBundle = (''CERT1-----END CERTIFICATE-----'' @ [LF] @ ''CERT2'') @ endCertificate
   \<and> \<not> endsInsideMarker (''CERT1-----END CERTIFICATE-----'' @ [LF] @ ''CERT2'')
   \<and> last (splitOnEndCertificate exampleBundle) = []
   \<and> last (caFileEntries exampleBundle) = []
   \<and> (\<exists>opts. fst (getProxyFetchOptions yarnProject srvApp initialState) = Inr opts
         \<and> ca opts = Some (caFileEntries exampleBundle))
   \<and> detectYarn hugeBundleProject (npmConfigGetCwd srvApp) = Inr False
   \<and> fst (readConfig hugeBundleProject False (npmConfigGetCwd srvApp) ''cafile'' initialState)
     = Inr (Some ''/etc/ssl/huge.pem'')
   \<and> read_file_sync hugeBundleProject ''/etc/ssl/huge.pem'' = Inr hugeBundle
   \<and> argument_limit hugeBundleProject < length (caFileEntries hugeBundle)
   \<and> (\<exists>opts. fst (getProxyFetchOptions hugeBundleProject srvApp initialState) = Inr opts
         \<and> ca opts = None)"
proof -
  have detected: "detectYarn yarnProject (npmConfigGetCwd srvApp) = Inr True"
    "detectYarn hugeBundleProject (npmConfigGetCwd srvApp) = Inr False"
    by (simp_all add: srvApp_def sample_detect)
  have cafile: "fst (readConfig yarnProject True (npmConfigGetCwd srvApp) ''cafile'' initialState)
      = Inr (Some ''/etc/ssl/bundle.pem'')"
    "fst (readConfig hugeBundleProject False (npmConfigGetCwd srvApp) ''cafile'' initialState)
      = Inr (Some ''/etc/ssl/huge.pem'')"
    by (simp_all add: srvApp_def fst_readConfig sample_reads)
  have readOk: "read_file_sync yarnProject ''/etc/ssl/bundle.pem'' = Inr exampleBundle"
    "read_file_sync hugeBundleProject ''/etc/ssl/huge.pem'' = Inr hugeBundle"
    by (simp_all add: yarnProject_def hugeBundleProject_def)
  have limits: "length (caFileEntries exampleBundle) \<le> argument_limit yarnProject"
    "argument_limit hugeBundleProject < length (caFileEntries hugeBundle)"
    by (simp_all add: yarnProject_def hugeBundleProject_def example_entries hugeBundle_entries)
  from cafile_adds_entry [OF detected(1) cafile(1) readOk(1)] example_body limits(1)
  have small: "last (caFileEntries exampleBundle) = []
      \<and> (\<exists>opts. fst (getProxyFetchOptions yarnProject srvApp initialState) = Inr opts
            \<and> ca opts = Some (caFileEntries exampleBundle))"
    by (simp add: srvApp_def fst_readConfig sample_reads) blast
  from cafile_adds_entry [OF detected(2) cafile(2) readOk(2)] limits(2)
  have big: "\<exists>opts. fst (getProxyFetchOptions hugeBundleProject srvApp initialState) = Inr opts
            \<and> ca opts = None"
    by (simp add: srvApp_def fst_readConfig sample_reads) blast
  from small big detected cafile readOk limits example_body show ?thesis
    by blast
qed

subsection \<open>Normalising the output of the command\<close>

lemma normalise_samples:
  "trim ('' '' @ [DQUOTE] @ ''foo'' @ [DQUOTE, LF]) = [DQUOTE] @ ''foo'' @ [DQUOTE]"
  by code_simp

text \<open>
  Claim C6, evaluated where the code departs from it. A text in double quotes loses them
  only if no line break lies between them, because \<^verbatim>\<open>.\<close> in the pattern of line 68
  does not match a line break. So when the alternate manager prints the value of
  \<^verbatim>\<open>cert\<close> in double quotes on two lines, \<^verbatim>\<open>readConfig\<close> trims the output and returns
  it with both quotes still in place. The one-line value of \<^verbatim>\<open>https-proxy\<close> loses its
  quotes, and so does the quoted \<^verbatim>\<open>foo\<close>, which the default manager, which only trims,
  leaves as it is.
\<close>

theorem quotes_kept_across_lines:
  "stripQuotes (DQUOTE # mid @ [DQUOTE]) =
     (if hasLineTerminator mid then DQUOTE # mid @ [DQUOTE] else mid)
   \<and> exec_sync yarnProject (configGetCommand True ''cert'') ''/srv/app''
     = Inr ([DQUOTE] @ ''BEGIN'' @ [LF] @ ''END'' @ [DQUOTE, LF])
   \<and> fst (readConfig yarnProject True ''/srv/app'' ''cert'' initialState)
     = Inr (Some ([DQUOTE] @ ''BEGIN'' @ [LF] @ ''END'' @ [DQUOTE]))
   \<and> fst (readConfig yarnProject True ''/srv/app'' ''https-proxy'' initialState)
     = Inr (Some ''http://proxy:8080'')
   \<and> trim ('' '' @ [DQUOTE] @ ''foo'' @ [DQUOTE, LF]) = [DQUOTE] @ ''foo'' @ [DQUOTE]
   \<and> stripQuotes (trim ('' '' @ [DQUOTE] @ ''foo'' @ [DQUOTE, LF])) = ''foo''"
proof -
  have printed: "exec_sync yarnProject (configGetCommand True ''cert'') ''/srv/app''
     = Inr ([DQUOTE] @ ''BEGIN'' @ [LF] @ ''END'' @ [DQUOTE, LF])"
    by (simp add: sample_exec yarnProjectExec_def configGetCommand_def)
  have general: "stripQuotes (DQUOTE # mid @ [DQUOTE]) =
     (if hasLineTerminator mid then DQUOTE # mid @ [DQUOTE] else mid)"
    by (simp add: stripQuotes_def)
  have foo: "stripQuotes ([DQUOTE] @ ''foo'' @ [DQUOTE]) = ''foo''"
    by (simp add: stripQuotes_def)
  from printed general foo show ?thesis
    by (simp only: normalise_samples fst_readConfig read_yarnProject)
qed

end
